theory Spec2Isabelle
  imports Main "HOL-Library.AList"
begin

section \<open>SonicFlux Node.js server: shared constants (app.js)\<close>

definition SECS_IN_LOBBY :: int where
  "SECS_IN_LOBBY = 30"

definition SECS_IN_COMPLETE_CYCLE :: int where
  "SECS_IN_COMPLETE_CYCLE = 180"

definition MSECS_IN_COMPLETE_CYCLE :: int where
  "MSECS_IN_COMPLETE_CYCLE = SECS_IN_COMPLETE_CYCLE * 1000"

definition MIN_ROOM_NUM :: int where
  "MIN_ROOM_NUM = 0"

definition NUM_ROOMS :: int where
  "NUM_ROOMS = 4"

section \<open>Module constants of timer.js\<close>

definition SECS_MAX_SKIP_FWD :: int where
  "SECS_MAX_SKIP_FWD = 9"

definition SECS_PER_CALIBRATION :: int where
  "SECS_PER_CALIBRATION = 1"

definition USE_LARGER_CLOCK_SKEW :: bool where
  "USE_LARGER_CLOCK_SKEW = False"

definition MSECS_MAX_CLK_ERR :: int where
  "MSECS_MAX_CLK_ERR = 10"

definition MSECS_EXTRA_MAX_CLK_ERR :: int where
  "MSECS_EXTRA_MAX_CLK_ERR = 25"

definition TIMER_NOT_SET :: int where
  "TIMER_NOT_SET = 0"

definition FASTER_TIMER_INTERVAL :: int where
  "FASTER_TIMER_INTERVAL = 960"

definition FAST_TIMER_INTERVAL :: int where
  "FAST_TIMER_INTERVAL = 976"

definition NORMAL_TIMER_INTERVAL :: int where
  "NORMAL_TIMER_INTERVAL = 990"

definition SLOW_TIMER_INTERVAL :: int where
  "SLOW_TIMER_INTERVAL = 1004"

definition SLOWER_TIMER_INTERVAL :: int where
  "SLOWER_TIMER_INTERVAL = 1020"

definition initMSecOffset :: int where
  "initMSecOffset = - 10"

section \<open>JavaScript arithmetic on integer-valued numbers\<close>

text \<open>
  The clock readings of \<open>Date.getTime\<close> and the second counters are integer-valued
  JavaScript numbers far below \<open>2^53\<close>, modelled as \<open>int\<close>.  The operator \<open>%\<close> is the
  truncated remainder (the sign follows the dividend), and \<open>parseInt (a / b)\<close> of such a
  quotient drops the fractional part, rounding towards zero.  \<open>Math.floor (a / b)\<close> is
  the floor division \<open>div\<close> of HOL.
\<close>

definition js_tdiv :: "int \<Rightarrow> int \<Rightarrow> int" where
  "js_tdiv a b = sgn a * sgn b * (\<bar>a\<bar> div \<bar>b\<bar>)"

definition js_rem :: "int \<Rightarrow> int \<Rightarrow> int" where
  "js_rem a b = a - b * js_tdiv a b"

section \<open>Data model\<close>

type_synonym sid = string
type_synonym sock = nat
type_synonym ref = nat

text \<open>
  The \<open>points\<close> field holds whatever the client sent in \<open>player_scored\<close>.  Of the
  JavaScript values the model keeps \<open>undefined\<close>, \<open>null\<close> and the integer-valued numbers,
  negative ones included; the code stores strings, fractions and objects just as well.
\<close>

datatype jsval = JUndefined | JNull | JNum int

record player =
  player_tag :: string
  points :: jsval
  diff_lvl :: int
  incomplete_round :: bool
  ref_count :: int

text \<open>
  A variable or property that holds a player object holds a reference to it: the object
  created in \<open>client_ready\<close> is shared by \<open>all_players_list\<close>, by \<open>request.session.player\<close>
  and by the undeclared (hence global) variable \<open>player\<close>.
\<close>

datatype slot = SUndefined | SNull | SRef ref

type_synonym entry = "string \<times> jsval"

text \<open>
  A JavaScript string is modelled as a \<open>string\<close> of HOL, a list of characters with codes
  below 256: the strings whose code units are all below 256.

  The value sent as \<open>difficulty_level\<close> is a string, or a value of another kind (a number,
  a boolean, an array, an object), which is given by the string JavaScript makes of it
  (\<open>ToString\<close>): that string is all \<open>parseInt\<close> reads of it.  The number 2 is
  \<open>DOther ''2''\<close>, the number 2.9 is \<open>DOther ''2.9''\<close>, the number \<open>10^21\<close> is
  \<open>DOther ''1e+21''\<close>.
\<close>

datatype dlval = DStr string | DOther string

text \<open>
  The value sent as \<open>player_tag\<close>: a string, or a value of another kind, which has no
  method \<open>trim\<close>.
\<close>

datatype tagval = TagString string | TagOther

datatype payload =
    PErrInput string dlval
  | PErr string
  | PPlayer player
  | PEntry entry
  | PTag string
  | PLeaders "entry list"
  | PSecs int
  | PResults "entry list"
  | PPlayTick int "entry list"
  | PFinal jsval bool

text \<open>
  What a handler does to the outside world, in program order: \<open>request.io.emit\<close>,
  \<open>request.io.room(r).broadcast\<close> (everybody in the room but the sender),
  \<open>app.io.room(r).broadcast\<close>, \<open>app.io.broadcast\<close>, and the timer calls.
\<close>

datatype effect =
    Emit sock string payload
  | RoomBroadcastFrom sock int string payload
  | RoomBroadcast int string payload
  | BroadcastAll string payload
  | SetTimeout int
  | SetInterval int
  | ClearInterval

datatype js_error = ReferenceError | TypeError

record server =
  all_players_list :: "(sid \<times> slot) list"
  heap :: "player list"
  roomCount :: "int \<Rightarrow> int"
  round_in_progress :: bool
  round_results :: "int \<Rightarrow> entry list option"
  player_var :: "slot option"
  num_guests :: nat
  session_player :: "sock \<Rightarrow> slot option"
  members :: "(sock \<times> int) set"
  secsRemaining :: int
  currentTimerInterval :: int
  timerIntervalObj :: "int option"
  timerTimeoutObj :: "int option"
  out :: "effect list"

text \<open>The state app.js sets up before \<open>timer.start()\<close>.\<close>

definition init_server :: server where
  "init_server =
     \<lparr> all_players_list = [], heap = [], roomCount = (\<lambda>_. 0),
       round_in_progress = False, round_results = (\<lambda>_. None),
       player_var = None, num_guests = 0, session_player = (\<lambda>_. Some SUndefined),
       members = {}, secsRemaining = 0, currentTimerInterval = TIMER_NOT_SET,
       timerIntervalObj = None, timerTimeoutObj = None, out = [] \<rparr>"

definition send :: "effect \<Rightarrow> server \<Rightarrow> server" where
  "send e s = s\<lparr>out := out s @ [e]\<rparr>"

definition rooms :: "int list" where
  "rooms = [MIN_ROOM_NUM .. MIN_ROOM_NUM + NUM_ROOMS - 1]"

definition deref :: "server \<Rightarrow> ref \<Rightarrow> player option" where
  "deref s r = (if r < length (heap s) then Some (heap s ! r) else None)"

text \<open>
  \<open>for (var index in all_players_list) if (all_players_list[index]) ...\<close>: the truthy
  entries, in key order.
\<close>

fun live_refs :: "(sid \<times> slot) list \<Rightarrow> ref list" where
  "live_refs [] = []"
| "live_refs ((k, SRef r) # al) = r # live_refs al"
| "live_refs ((k, v) # al) = live_refs al"

definition live_players :: "server \<Rightarrow> player list" where
  "live_players s = List.map_filter (deref s) (live_refs (all_players_list s))"

definition entry_of :: "player \<Rightarrow> entry" where
  "entry_of p = (player_tag p, points p)"

definition entries_in :: "server \<Rightarrow> int \<Rightarrow> entry list" where
  "entries_in s room = map entry_of (filter (\<lambda>p. diff_lvl p = room) (live_players s))"

subsection \<open>Sorting with the comparator \<open>b.points - a.points\<close>\<close>

text \<open>
  \<open>ToNumber\<close> of the points; \<open>None\<close> is NaN.  A comparator result NaN counts as \<open>0\<close>.
  The order among entries that compare equal is the host's; the model keeps them in
  their order of insertion.
\<close>

fun to_number :: "jsval \<Rightarrow> int option" where
  "to_number (JNum n) = Some n"
| "to_number JNull = Some 0"
| "to_number JUndefined = None"

definition by_points :: "entry \<Rightarrow> entry \<Rightarrow> int" where
  "by_points a b =
     (case (to_number (snd b), to_number (snd a)) of
        (Some y, Some x) \<Rightarrow> y - x
      | _ \<Rightarrow> 0)"

fun insert_entry :: "entry \<Rightarrow> entry list \<Rightarrow> entry list" where
  "insert_entry x [] = [x]"
| "insert_entry x (y # ys) =
     (if by_points y x \<le> 0 then y # insert_entry x ys else x # y # ys)"

definition sort_entries :: "entry list \<Rightarrow> entry list" where
  "sort_entries xs = foldl (\<lambda>acc x. insert_entry x acc) [] xs"

section \<open>timer.js\<close>

text \<open>\<open>msecUntilNextGame\<close>, with the reading of the clock as its argument.\<close>

definition msecUntilNextGame :: "int \<Rightarrow> int" where
  "msecUntilNextGame now =
     (let timePrevGameOver = (now div MSECS_IN_COMPLETE_CYCLE) * MSECS_IN_COMPLETE_CYCLE
      in (timePrevGameOver + MSECS_IN_COMPLETE_CYCLE) - now)"

definition adjustLobbySecs :: "int \<Rightarrow> server \<Rightarrow> server" where
  "adjustLobbySecs now s =
     (let actualSecRemaining = js_tdiv (msecUntilNextGame now + 500) 1000
      in if actualSecRemaining \<noteq> secsRemaining s
         then s\<lparr>secsRemaining :=
                  max (secsRemaining s - SECS_MAX_SKIP_FWD) (min SECS_IN_LOBBY actualSecRemaining)\<rparr>
         else s)"

definition msecClkErr :: "int \<Rightarrow> int" where
  "msecClkErr now = js_rem (now + 500) 1000 - 500"

text \<open>The interval \<open>calibrateTimer\<close> selects; the flag is \<open>USE_LARGER_CLOCK_SKEW\<close>.\<close>

definition newTimerInterval :: "bool \<Rightarrow> int \<Rightarrow> int" where
  "newTimerInterval larger err =
     (let n = (if err > MSECS_MAX_CLK_ERR then FAST_TIMER_INTERVAL
               else if err < - MSECS_MAX_CLK_ERR then SLOW_TIMER_INTERVAL
               else NORMAL_TIMER_INTERVAL)
      in if larger
         then (if err > MSECS_EXTRA_MAX_CLK_ERR then FASTER_TIMER_INTERVAL
               else if err < - MSECS_EXTRA_MAX_CLK_ERR then SLOWER_TIMER_INTERVAL
               else n)
         else n)"

definition calibrateTimer_with :: "bool \<Rightarrow> int \<Rightarrow> server \<Rightarrow> server" where
  "calibrateTimer_with larger now s =
     (let n = newTimerInterval larger (msecClkErr now)
      in if currentTimerInterval s \<noteq> n
         then (send (SetInterval n) (send ClearInterval s))
                \<lparr>timerIntervalObj := Some n, currentTimerInterval := n\<rparr>
         else s)"

definition calibrateTimer :: "int \<Rightarrow> server \<Rightarrow> server" where
  "calibrateTimer = calibrateTimer_with USE_LARGER_CLOCK_SKEW"

definition playTick_room :: "int \<Rightarrow> server \<Rightarrow> server" where
  "playTick_room room s =
     (if roomCount s room \<noteq> 0
      then send (RoomBroadcast room ''play_timer_update''
                   (PPlayTick (secsRemaining s - SECS_IN_LOBBY) (sort_entries (entries_in s room)))) s
      else s)"

definition playTick :: "server \<Rightarrow> server" where
  "playTick s = fold playTick_room rooms s"

definition lobbyTick_room :: "int \<Rightarrow> server \<Rightarrow> server" where
  "lobbyTick_room room s =
     (if roomCount s room \<noteq> 0
      then send (RoomBroadcast room ''lobby_timer_update'' (PSecs (secsRemaining s))) s
      else s)"

definition lobbyTick :: "server \<Rightarrow> server" where
  "lobbyTick s = fold lobbyTick_room rooms s"

definition createRoundResults :: "server \<Rightarrow> server" where
  "createRoundResults s =
     s\<lparr>round_results :=
         (\<lambda>room. if room \<in> set rooms then Some (entries_in s room) else round_results s room)\<rparr>"

definition results_of :: "server \<Rightarrow> int \<Rightarrow> entry list" where
  "results_of s room = (case round_results s room of Some es \<Rightarrow> es | None \<Rightarrow> [])"

definition broadcastRoundResults_room :: "int \<Rightarrow> server \<Rightarrow> server" where
  "broadcastRoundResults_room room s =
     (if roomCount s room \<noteq> 0 \<and> results_of s room \<noteq> []
      then (send (RoomBroadcast room ''room_round_results''
                    (PResults (sort_entries (results_of s room)))) s)
             \<lparr>round_results := (round_results s)(room := Some (sort_entries (results_of s room)))\<rparr>
      else s)"

definition broadcastRoundResults :: "server \<Rightarrow> server" where
  "broadcastRoundResults s = fold broadcastRoundResults_room rooms s"

definition reset_player :: "ref \<Rightarrow> player list \<Rightarrow> player list" where
  "reset_player r h =
     (if r < length h then h[r := (h ! r)\<lparr>points := JNum 0, incomplete_round := False\<rparr>] else h)"

definition firstPlayTick :: "server \<Rightarrow> server" where
  "firstPlayTick s =
     (let s1 = s\<lparr>heap := fold reset_player (live_refs (all_players_list s)) (heap s)\<rparr>;
          s2 = s1\<lparr>round_in_progress := True\<rparr>;
          s3 = send (BroadcastAll ''round_started''
                       (PSecs (SECS_IN_COMPLETE_CYCLE - SECS_IN_LOBBY))) s2
      in playTick s3)"

definition firstLobbyTick :: "server \<Rightarrow> server" where
  "firstLobbyTick s =
     (let s1 = s\<lparr>round_in_progress := False\<rparr>;
          s2 = send (BroadcastAll ''round_ended'' (PSecs SECS_IN_LOBBY)) s1;
          s3 = createRoundResults s2;
          s4 = broadcastRoundResults s3
      in lobbyTick s4)"

definition firstTick :: "server \<Rightarrow> server" where
  "firstTick s =
     (let s1 = (if secsRemaining s = 0 then s\<lparr>secsRemaining := SECS_IN_COMPLETE_CYCLE\<rparr> else s);
          s2 = (if secsRemaining s1 \<le> SECS_IN_LOBBY then firstLobbyTick s1 else firstPlayTick s1)
      in s2\<lparr>secsRemaining := secsRemaining s2 - 1\<rparr>)"

text \<open>
  The dispatch of \<open>timerTick\<close>, before calibration and the decrement.  \<open>now\<close> is the clock
  as \<open>adjustLobbySecs\<close> reads it.
\<close>

definition tick_dispatch :: "int \<Rightarrow> server \<Rightarrow> server" where
  "tick_dispatch now s =
     (if secsRemaining s \<ge> SECS_IN_LOBBY
      then (let s1 = playTick s
            in if secsRemaining s1 = SECS_IN_LOBBY then firstLobbyTick s1 else s1)
      else if secsRemaining s = SECS_IN_LOBBY - 1
      then lobbyTick (adjustLobbySecs now s)
      else (let s1 = lobbyTick s
            in if secsRemaining s1 = 0
               then firstPlayTick (s1\<lparr>secsRemaining := SECS_IN_COMPLETE_CYCLE\<rparr>)
               else s1))"

text \<open>
  \<open>timerTick\<close>: \<open>now1\<close> is the clock as \<open>adjustLobbySecs\<close> reads it, \<open>now2\<close> as
  \<open>calibrateTimer\<close> reads it afterwards.
\<close>

definition timerTick :: "int \<Rightarrow> int \<Rightarrow> server \<Rightarrow> server" where
  "timerTick now1 now2 s =
     (let s1 = tick_dispatch now1 s;
          s2 = (if js_rem (secsRemaining s1) SECS_PER_CALIBRATION = 0
                then calibrateTimer now2 s1 else s1)
      in s2\<lparr>secsRemaining := secsRemaining s2 - 1\<rparr>)"

text \<open>
  \<open>oneShot\<close>, the callback of the one-shot timer: the first tick, then the recurring
  timer.  \<open>delayStart\<close> schedules it.
\<close>

definition oneShot :: "int \<Rightarrow> server \<Rightarrow> server" where
  "oneShot interval s =
     (let s1 = firstTick s
      in (send (SetInterval interval) s1)\<lparr>timerIntervalObj := Some interval\<rparr>)"

definition delayStart :: "int \<Rightarrow> server \<Rightarrow> server" where
  "delayStart delay s = (send (SetTimeout delay) s)\<lparr>timerTimeoutObj := Some delay\<rparr>"

definition start :: "int \<Rightarrow> server \<Rightarrow> server" where
  "start now s =
     (let msecsRemaining = msecUntilNextGame now;
          s1 = s\<lparr>secsRemaining := js_tdiv msecsRemaining 1000\<rparr>;
          msecsRemaining' = js_rem msecsRemaining 1000;
          s2 = delayStart (msecsRemaining' + initMSecOffset) s1
      in s2\<lparr>currentTimerInterval := NORMAL_TIMER_INTERVAL\<rparr>)"

section \<open>route.js\<close>

subsection \<open>Requests\<close>

text \<open>
  \<open>request.data.profile\<close> of \<open>client_ready\<close> and \<open>change_room\<close>.  \<open>None\<close> stands for an
  absent or null field.
\<close>

record profile =
  difficulty_level :: "dlval option"
  profile_tag :: "tagval option"

text \<open>
  A request comes over a connection (\<open>sock\<close>), carries the session id of its cookie and
  the data the client sent.  For \<open>client_ready\<close> and \<open>change_room\<close> the data are \<open>None\<close>
  (falsy), \<open>Some None\<close> (no profile) or \<open>Some (Some profile)\<close>; for \<open>player_scored\<close>
  they are \<open>None\<close> (falsy) or the \<open>points\<close> field.
\<close>

record 'd request =
  sock :: sock
  sessionID :: sid
  data :: 'd

type_synonym ready_request = "profile option option request"
type_synonym score_request = "jsval option request"

datatype outcome = Returned server | Threw js_error server

subsection \<open>\<open>parseInt\<close>, \<open>trim\<close> and number to string\<close>

text \<open>
  The white space \<open>parseInt\<close> and \<open>trim\<close> skip, among the characters below 256: tab, line
  feed, vertical tab, form feed, carriage return, space and the no-break space.
\<close>

definition is_ws :: "char \<Rightarrow> bool" where
  "is_ws c = ((of_char c :: nat) \<in> {9, 10, 11, 12, 13, 32, 160})"

definition digit_val :: "char \<Rightarrow> nat option" where
  "digit_val c =
     (let n = (of_char c :: nat)
      in if 48 \<le> n \<and> n \<le> 57 then Some (n - 48)
         else if 97 \<le> n \<and> n \<le> 122 then Some (n - 87)
         else if 65 \<le> n \<and> n \<le> 90 then Some (n - 55)
         else None)"

definition is_digit :: "nat \<Rightarrow> char \<Rightarrow> bool" where
  "is_digit R c = (case digit_val c of Some d \<Rightarrow> d < R | None \<Rightarrow> False)"

definition digits_value :: "nat \<Rightarrow> string \<Rightarrow> nat" where
  "digits_value R ds = foldl (\<lambda>a c. a * R + the (digit_val c)) 0 ds"

text \<open>
  \<open>parseInt\<close> with no radix on a string: leading white space and a sign are skipped, a
  prefix \<open>0x\<close> or \<open>0X\<close> selects radix 16, and the longest run of digits is read; with
  no digit the result is NaN (\<open>None\<close>).
\<close>

definition parseInt_digits :: "string \<Rightarrow> nat option" where
  "parseInt_digits t =
     (let (R, u) = (case t of
                      a # b # rest \<Rightarrow>
                        if a = CHR ''0'' \<and> (b = CHR ''x'' \<or> b = CHR ''X'') then (16, rest) else (10, t)
                    | _ \<Rightarrow> (10, t));
          ds = takeWhile (is_digit R) u
      in if ds = [] then None else Some (digits_value R ds))"

definition parseInt_string :: "string \<Rightarrow> int option" where
  "parseInt_string str =
     (let t = dropWhile is_ws str
      in case t of
           c # rest \<Rightarrow>
             if c = CHR ''-'' then map_option (\<lambda>n. - int n) (parseInt_digits rest)
             else if c = CHR ''+'' then map_option int (parseInt_digits rest)
             else map_option int (parseInt_digits t)
         | [] \<Rightarrow> None)"

text \<open>\<open>parseInt\<close> of a value that is not a string reads the string made of it.\<close>

fun parseInt :: "dlval \<Rightarrow> int option" where
  "parseInt (DStr str) = parseInt_string str"
| "parseInt (DOther str) = parseInt_string str"

definition trim :: "string \<Rightarrow> string" where
  "trim str = rev (dropWhile is_ws (rev (dropWhile is_ws str)))"

definition digit_char :: "nat \<Rightarrow> char" where
  "digit_char d = char_of (48 + d)"

function show_nat :: "nat \<Rightarrow> string" where
  "show_nat n = (if n < 10 then [digit_char n] else show_nat (n div 10) @ [digit_char (n mod 10)])"
  by pat_completeness auto
termination
  by (relation "measure id") auto

declare show_nat.simps [simp del]

subsection \<open>Worker functions\<close>

definition error_client_ready :: "sock \<Rightarrow> string \<Rightarrow> dlval \<Rightarrow> effect" where
  "error_client_ready c msg user_input = Emit c ''error_client_ready'' (PErrInput msg user_input)"

text \<open>\<open>determineDifficultyLevel\<close> returns \<open>-1\<close> after it has emitted an error.\<close>

definition determineDifficultyLevel :: "ready_request \<Rightarrow> server \<Rightarrow> int \<times> server" where
  "determineDifficultyLevel request s =
     (case data request of
        None \<Rightarrow>
          (- 1, send (error_client_ready (sock request) ''No request data was provided'' (DStr [])) s)
      | Some None \<Rightarrow>
          (- 1, send (error_client_ready (sock request) ''No user profile was provided'' (DStr [])) s)
      | Some (Some prof) \<Rightarrow>
          (case difficulty_level prof of
             None \<Rightarrow>
               (- 1, send (error_client_ready (sock request)
                             ''No difficulty level was provided'' (DStr [])) s)
           | Some v \<Rightarrow>
               (case parseInt v of
                  None \<Rightarrow>
                    (- 1, send (error_client_ready (sock request) ''Invalid difficulty level'' v) s)
                | Some lvl \<Rightarrow>
                    if lvl < MIN_ROOM_NUM \<or> lvl \<ge> MIN_ROOM_NUM + NUM_ROOMS
                    then (- 1, send (error_client_ready (sock request)
                                       ''Difficulty level is out of range'' v) s)
                    else (lvl, s))))"

definition update_player :: "ref \<Rightarrow> (player \<Rightarrow> player) \<Rightarrow> server \<Rightarrow> server" where
  "update_player r f s = s\<lparr>heap := (heap s)[r := f (heap s ! r)]\<rparr>"

definition set_session_player :: "sock \<Rightarrow> slot \<Rightarrow> server \<Rightarrow> server" where
  "set_session_player c v s = s\<lparr>session_player := (session_player s)(c := Some v)\<rparr>"

text \<open>
  \<open>checkClientAlreadyConnected\<close>: \<open>None\<close> is the answer \<open>false\<close>; otherwise the state after
  the reference count went up, or the TypeError of writing to a missing session.
\<close>

definition checkClientAlreadyConnected :: "'d request \<Rightarrow> server \<Rightarrow> outcome option" where
  "checkClientAlreadyConnected request s =
     (case map_of (all_players_list s) (sessionID request) of
        Some (SRef r) \<Rightarrow>
          (case session_player s (sock request) of
             None \<Rightarrow> Some (Threw TypeError s)
           | Some _ \<Rightarrow>
               (case deref s r of
                  None \<Rightarrow> Some (Threw TypeError (set_session_player (sock request) (SRef r) s))
                | Some p \<Rightarrow>
                    Some (Returned
                      (update_player r (\<lambda>p. p\<lparr>ref_count := ref_count p + 1\<rparr>)
                         (set_session_player (sock request) (SRef r) s)))))
      | _ \<Rightarrow> None)"

text \<open>
  \<open>determineTag\<close>: a missing, empty or blank tag gives a guest tag; a tag that is not a
  string makes \<open>tag.trim()\<close> throw a TypeError, with \<open>num_guests\<close> as it was.
\<close>

definition guest_tag :: "server \<Rightarrow> string \<times> server" where
  "guest_tag s = (trim (''Guest '' @ show_nat (num_guests s)), s\<lparr>num_guests := num_guests s + 1\<rparr>)"

definition determineTag :: "profile \<Rightarrow> server \<Rightarrow> js_error + string \<times> server" where
  "determineTag prof s =
     (case profile_tag prof of
        None \<Rightarrow> Inr (guest_tag s)
      | Some TagOther \<Rightarrow> Inl TypeError
      | Some (TagString tag) \<Rightarrow>
          if trim tag = [] then Inr (guest_tag s) else Inr (trim tag, s))"

definition attachPlayerToRoom :: "sock \<Rightarrow> player \<Rightarrow> server \<Rightarrow> server" where
  "attachPlayerToRoom c p s =
     (let d = diff_lvl p;
          s1 = s\<lparr>roomCount := (roomCount s)(d := roomCount s d + 1)\<rparr>;
          s2 = s1\<lparr>members := insert (c, d) (members s1)\<rparr>
      in send (RoomBroadcastFrom c d ''gamer_entered_room'' (PEntry (player_tag p, points p))) s2)"

definition emitPlayersAlreadyInRoom :: "sock \<Rightarrow> player \<Rightarrow> server \<Rightarrow> server" where
  "emitPlayersAlreadyInRoom c p s =
     send (Emit c ''gamers_already_in_room'' (PLeaders (entries_in s (diff_lvl p)))) s"

definition emitRoundEventAndResults :: "sock \<Rightarrow> bool \<Rightarrow> int \<Rightarrow> server \<Rightarrow> outcome" where
  "emitRoundEventAndResults c in_progress room s =
     (if in_progress
      then Returned (send (Emit c ''round_started''
                             (PSecs (SECS_IN_COMPLETE_CYCLE - SECS_IN_LOBBY))) s)
      else (let s1 = send (Emit c ''round_ended'' (PSecs SECS_IN_LOBBY)) s
            in case round_results s1 room of
                 None \<Rightarrow> Threw TypeError s1
               | Some es \<Rightarrow>
                   if es \<noteq> [] then Returned (send (Emit c ''room_round_results'' (PResults es)) s1)
                   else Returned s1))"

text \<open>\<open>detachPlayerFromRoom\<close>, for the player object \<open>request.session.player\<close> refers to.\<close>

definition detachPlayerFromRoom :: "sock \<Rightarrow> player \<Rightarrow> server \<Rightarrow> server" where
  "detachPlayerFromRoom c p s =
     (let d = diff_lvl p;
          tag = player_tag p;
          s1 = s\<lparr>roomCount := (roomCount s)(d := roomCount s d - 1)\<rparr>;
          s2 = s1\<lparr>members := members s1 - {(c, d)}\<rparr>
      in if roomCount s2 d > 0
         then send (RoomBroadcastFrom c d ''gamer_exited_room'' (PTag tag)) s2
         else s2)"

text \<open>The player object behind \<open>request.session.player\<close>, if it is one.\<close>

definition session_ref :: "server \<Rightarrow> sock \<Rightarrow> ref option" where
  "session_ref s c =
     (case session_player s c of
        Some (SRef r) \<Rightarrow> (if r < length (heap s) then Some r else None)
      | _ \<Rightarrow> None)"

subsection \<open>Routing functions\<close>

definition client_ready :: "ready_request \<Rightarrow> server \<Rightarrow> outcome" where
  "client_ready request s =
     (let (lvl, s1) = determineDifficultyLevel request s
      in if lvl = - 1 then Returned s1
         else case checkClientAlreadyConnected request s1 of
           Some res \<Rightarrow> res
         | None \<Rightarrow>
             (case determineTag (the (the (data request))) s1 of
                Inl e \<Rightarrow> Threw e s1
              | Inr (tag, s2) \<Rightarrow>
                  (let p = \<lparr>player_tag = tag, points = JNum 0, diff_lvl = lvl,
                            incomplete_round = round_in_progress s2, ref_count = 1\<rparr>;
                       r = length (heap s2);
                       s3 = s2\<lparr>heap := heap s2 @ [p], player_var := Some (SRef r),
                               all_players_list := AList.update (sessionID request) (SRef r)
                                                     (all_players_list s2)\<rparr>
                   in case session_player s3 (sock request) of
                        None \<Rightarrow> Threw TypeError s3
                      | Some _ \<Rightarrow>
                          (let s4 = set_session_player (sock request) (SRef r) s3;
                               s5 = send (Emit (sock request) ''client_confirmed'' (PPlayer p)) s4;
                               s6 = attachPlayerToRoom (sock request) p s5;
                               s7 = emitPlayersAlreadyInRoom (sock request) p s6
                           in emitRoundEventAndResults (sock request)
                                (round_in_progress s7) lvl s7))))"

definition change_room :: "ready_request \<Rightarrow> server \<Rightarrow> outcome" where
  "change_room request s =
     (let (new_level, s1) = determineDifficultyLevel request s
      in if new_level = - 1 then Returned s1
         else case player_var s1 of
           None \<Rightarrow> Threw ReferenceError s1
         | Some SUndefined \<Rightarrow> Threw TypeError s1
         | Some SNull \<Rightarrow> Threw TypeError s1
         | Some (SRef g) \<Rightarrow>
             (case deref s1 g of
                None \<Rightarrow> Threw TypeError s1
              | Some gp \<Rightarrow>
                  (let prev_level = diff_lvl gp
                   in case session_player s1 (sock request) of
                        None \<Rightarrow> Threw TypeError s1
                      | Some v \<Rightarrow>
                          (let s2 = s1\<lparr>player_var := Some v\<rparr>
                           in if new_level = prev_level then Returned s2
                              else case session_ref s2 (sock request) of
                                None \<Rightarrow> Threw TypeError s2
                              | Some r \<Rightarrow>
                                  (let s3 = detachPlayerFromRoom (sock request) (heap s2 ! r) s2;
                                       s4 = update_player r (\<lambda>p. p\<lparr>diff_lvl := new_level\<rparr>) s3;
                                       p = heap s4 ! r;
                                       s5 = attachPlayerToRoom (sock request) p s4;
                                       s6 = emitPlayersAlreadyInRoom (sock request) p s5
                                   in emitRoundEventAndResults (sock request)
                                        (round_in_progress s6) prev_level s6)))))"

definition disconnect :: "unit request \<Rightarrow> server \<Rightarrow> outcome" where
  "disconnect request s =
     (case session_player s (sock request) of
        None \<Rightarrow> Threw TypeError s
      | Some SUndefined \<Rightarrow> Returned s
      | Some SNull \<Rightarrow> Threw TypeError s
      | Some (SRef r0) \<Rightarrow>
          (case session_ref s (sock request) of
             None \<Rightarrow> Threw TypeError s
           | Some r \<Rightarrow>
               (let s1 = update_player r (\<lambda>p. p\<lparr>ref_count := ref_count p - 1\<rparr>) s
                in if ref_count (heap s1 ! r) \<noteq> 0 then Returned s1
                   else (let s2 = detachPlayerFromRoom (sock request) (heap s1 ! r) s1;
                             s3 = s2\<lparr>all_players_list :=
                                       AList.update (sessionID request) SNull (all_players_list s2)\<rparr>
                         in Returned (set_session_player (sock request) SNull s3)))))"

definition error_unrecognized_player :: "sock \<Rightarrow> string \<Rightarrow> effect" where
  "error_unrecognized_player c msg = Emit c ''error_unrecognized_player'' (PErr msg)"

definition error_player_scored :: "sock \<Rightarrow> string \<Rightarrow> effect" where
  "error_player_scored c msg = Emit c ''error_player_scored'' (PErr msg)"

definition is_nullish :: "jsval \<Rightarrow> bool" where
  "is_nullish v = (v = JNull \<or> v = JUndefined)"

definition player_scored :: "score_request \<Rightarrow> server \<Rightarrow> outcome" where
  "player_scored request s =
     (case session_player s (sock request) of
        None \<Rightarrow> Returned (send (error_unrecognized_player (sock request) ''session is not set'') s)
      | Some v \<Rightarrow>
          (case session_ref s (sock request) of
             None \<Rightarrow>
               Returned (send (error_unrecognized_player (sock request)
                                 ''session.player is not set'') s)
           | Some r \<Rightarrow>
               (case data request of
                  None \<Rightarrow>
                    Returned (send (error_player_scored (sock request) ''request.data is not set'') s)
                | Some pts \<Rightarrow>
                    if is_nullish pts
                    then Returned (send (error_player_scored (sock request)
                                           ''request.data.points is not set'') s)
                    else if round_in_progress s
                    then (let s1 = update_player r (\<lambda>p. p\<lparr>points := pts\<rparr>) s
                          in case map_of (all_players_list s1) (sessionID request) of
                               Some (SRef r') \<Rightarrow>
                                 (if r' < length (heap s1)
                                  then Returned (update_player r' (\<lambda>p. p\<lparr>points := pts\<rparr>) s1)
                                  else Threw TypeError s1)
                             | _ \<Rightarrow> Threw TypeError s1)
                    else if is_nullish (points (heap s ! r))
                    then Returned (update_player r (\<lambda>p. p\<lparr>points := JNum 0\<rparr>) s)
                    else Returned s)))"

definition request_final_score :: "unit request \<Rightarrow> server \<Rightarrow> outcome" where
  "request_final_score request s =
     (case session_player s (sock request) of
        None \<Rightarrow> Returned (send (error_unrecognized_player (sock request) ''session is not set'') s)
      | Some v \<Rightarrow>
          (case session_ref s (sock request) of
             None \<Rightarrow>
               Returned (send (error_unrecognized_player (sock request)
                                 ''session.player is not set'') s)
           | Some r \<Rightarrow>
               (let s1 = (if round_in_progress s
                          then update_player r (\<lambda>p. p\<lparr>incomplete_round := True\<rparr>) s else s);
                    gamer = heap s1 ! r
                in Returned (send (Emit (sock request) ''final_round_score''
                                     (PFinal (points gamer) (\<not> incomplete_round gamer))) s1))))"

section \<open>Runs of the server\<close>

datatype input =
    OneShot
  | TimerTick int int
  | ClientReady ready_request
  | ChangeRoom ready_request
  | Disconnect "unit request"
  | PlayerScored score_request
  | RequestFinalScore "unit request"

fun handle :: "input \<Rightarrow> server \<Rightarrow> outcome" where
  "handle OneShot s = Returned (oneShot NORMAL_TIMER_INTERVAL s)"
| "handle (TimerTick now1 now2) s = Returned (timerTick now1 now2 s)"
| "handle (ClientReady request) s = client_ready request s"
| "handle (ChangeRoom request) s = change_room request s"
| "handle (Disconnect request) s = disconnect request s"
| "handle (PlayerScored request) s = player_scored request s"
| "handle (RequestFinalScore request) s = request_final_score request s"

fun state_of :: "outcome \<Rightarrow> server" where
  "state_of (Returned s) = s"
| "state_of (Threw e s) = s"

fun returned :: "outcome \<Rightarrow> bool" where
  "returned (Returned s) = True"
| "returned (Threw e s) = False"

definition run :: "input list \<Rightarrow> server \<Rightarrow> server" where
  "run is s = fold (\<lambda>i s. state_of (handle i s)) is s"

text \<open>
  The states the server can be in: app.js builds the initial state and calls
  \<open>timer.start()\<close>; from then on timer callbacks and client messages arrive in any order.
  A connection may or may not have a session object, which has no player yet.
\<close>

definition fresh_sessions :: "(sock \<Rightarrow> slot option) \<Rightarrow> bool" where
  "fresh_sessions sp = (\<forall>c. sp c = None \<or> sp c = Some SUndefined)"

inductive reachable :: "server \<Rightarrow> bool" where
  init: "fresh_sessions sp \<Longrightarrow> reachable (start now (init_server\<lparr>session_player := sp\<rparr>))"
| step: "reachable s \<Longrightarrow> reachable (state_of (handle i s))"

section \<open>Vocabulary of the properties\<close>

text \<open>The event names a step has sent: those of the effects added to \<open>out\<close>.\<close>

fun event_name :: "effect \<Rightarrow> string" where
  "event_name (Emit c n p) = n"
| "event_name (RoomBroadcastFrom c r n p) = n"
| "event_name (RoomBroadcast r n p) = n"
| "event_name (BroadcastAll n p) = n"
| "event_name (SetTimeout d) = ''setTimeout''"
| "event_name (SetInterval d) = ''setInterval''"
| "event_name ClearInterval = ''clearInterval''"

definition new_out :: "server \<Rightarrow> server \<Rightarrow> effect list" where
  "new_out s s' = drop (length (out s)) (out s')"

definition emitted :: "server \<Rightarrow> server \<Rightarrow> string list" where
  "emitted s s' = map event_name (new_out s s')"

definition occupied :: "server \<Rightarrow> bool" where
  "occupied s = (\<exists>r \<in> set rooms. roomCount s r \<noteq> 0)"

text \<open>The start of the next cycle as the specification words it, with a ceiling.\<close>

definition next_cycle_spec :: "int \<Rightarrow> int" where
  "next_cycle_spec now =
     - ((- now) div (SECS_IN_COMPLETE_CYCLE * 1000)) * (SECS_IN_COMPLETE_CYCLE * 1000)"

text \<open>The start of the next cycle as \<open>msecUntilNextGame\<close> computes it.\<close>

definition next_cycle :: "int \<Rightarrow> int" where
  "next_cycle now = (now div MSECS_IN_COMPLETE_CYCLE + 1) * MSECS_IN_COMPLETE_CYCLE"

text \<open>The interval table of the specification.\<close>

definition interval_table :: "bool \<Rightarrow> int \<Rightarrow> int" where
  "interval_table larger err =
     (if larger \<and> err > MSECS_EXTRA_MAX_CLK_ERR then FASTER_TIMER_INTERVAL
      else if larger \<and> err < - MSECS_EXTRA_MAX_CLK_ERR then SLOWER_TIMER_INTERVAL
      else if err > MSECS_MAX_CLK_ERR then FAST_TIMER_INTERVAL
      else if err < - MSECS_MAX_CLK_ERR then SLOW_TIMER_INTERVAL
      else NORMAL_TIMER_INTERVAL)"

text \<open>
  The seconds that should remain, and the value the coarse adjustment gives
  \<open>secsRemaining\<close>, as the specification words them.
\<close>

definition actual_secs :: "int \<Rightarrow> int" where
  "actual_secs now = (msecUntilNextGame now + 500) div 1000"

definition coarse_adjusted :: "int \<Rightarrow> int \<Rightarrow> int" where
  "coarse_adjusted now secs =
     (if actual_secs now \<noteq> secs
      then max (secs - SECS_MAX_SKIP_FWD) (min SECS_IN_LOBBY (actual_secs now))
      else secs)"

text \<open>Successive recurring ticks, each with its two readings of the clock.\<close>

definition run_ticks :: "(int \<times> int) list \<Rightarrow> server \<Rightarrow> server" where
  "run_ticks clk s = fold (\<lambda>(now1, now2) s. timerTick now1 now2 s) clk s"

text \<open>
  \<open>determine_room\<close> as the specification words it: the first error in the order
  missing request, missing profile, missing room, not an integer, out of range.
\<close>

datatype room_error = missing_request | missing_profile | missing_room | not_integer | out_of_range

definition determine_room :: "ready_request \<Rightarrow> room_error + int" where
  "determine_room request =
     (if data request = None then Inl missing_request
      else if the (data request) = None then Inl missing_profile
      else if difficulty_level (the (the (data request))) = None then Inl missing_room
      else if parseInt (the (difficulty_level (the (the (data request))))) = None then Inl not_integer
      else if the (parseInt (the (difficulty_level (the (the (data request)))))) < MIN_ROOM_NUM
              \<or> the (parseInt (the (difficulty_level (the (the (data request))))))
                  \<ge> MIN_ROOM_NUM + NUM_ROOMS
      then Inl out_of_range
      else Inr (the (parseInt (the (difficulty_level (the (the (data request))))))))"

fun error_str :: "room_error \<Rightarrow> string" where
  "error_str missing_request = ''No request data was provided''"
| "error_str missing_profile = ''No user profile was provided''"
| "error_str missing_room = ''No difficulty level was provided''"
| "error_str not_integer = ''Invalid difficulty level''"
| "error_str out_of_range = ''Difficulty level is out of range''"

text \<open>The \<open>user_input\<close> an error carries: the level sent once it is read, else \<open>''\<close>.\<close>

definition user_input :: "ready_request \<Rightarrow> room_error \<Rightarrow> dlval" where
  "user_input request e =
     (if e = not_integer \<or> e = out_of_range
      then the (difficulty_level (the (the (data request)))) else DStr [])"

text \<open>A \<open>client_ready\<close> or \<open>change_room\<close> request for a difficulty level.\<close>

definition room_request :: "sock \<Rightarrow> sid \<Rightarrow> dlval \<Rightarrow> tagval option \<Rightarrow> ready_request" where
  "room_request c k v tag =
     \<lparr>sock = c, sessionID = k, data = Some (Some \<lparr>difficulty_level = Some v, profile_tag = tag\<rparr>)\<rparr>"

definition nonneg_points :: "jsval \<Rightarrow> bool" where
  "nonneg_points v = (case v of JNum n \<Rightarrow> 0 \<le> n | _ \<Rightarrow> False)"

definition is_number :: "jsval \<Rightarrow> bool" where
  "is_number v = (case v of JNum n \<Rightarrow> True | _ \<Rightarrow> False)"

text \<open>
  A server in Play, one second after a start at 1 s past the epoch, and a server in
  Lobby after a start 30 s before the end of a cycle.
\<close>

definition in_play :: server where
  "in_play = oneShot NORMAL_TIMER_INTERVAL (start 1000 init_server)"

definition in_lobby :: server where
  "in_lobby = oneShot NORMAL_TIMER_INTERVAL (start 150000 init_server)"

text \<open>A server at its last Play second, with one player in room 0.\<close>

definition last_play :: server where
  "last_play = state_of (client_ready (room_request 0 ''s1'' (DOther ''0'') (Some (TagString ''Alice'')))
                  (oneShot NORMAL_TIMER_INTERVAL (start 149000 init_server)))"

text \<open>
  What the effects \<open>ms\<close> of a recurring tick entered in state \<open>s\<close> hold, as far as the
  Play updates and the round events go.
\<close>

definition dispatch_sends :: "server \<Rightarrow> effect list \<Rightarrow> bool" where
  "dispatch_sends s ms =
     ((''play_timer_update'' \<in> event_name ` set ms \<longleftrightarrow>
         (secsRemaining s \<ge> SECS_IN_LOBBY \<or> secsRemaining s = 0) \<and> occupied s) \<and>
      (''round_ended'' \<in> event_name ` set ms \<longleftrightarrow> secsRemaining s = SECS_IN_LOBBY) \<and>
      (''round_started'' \<in> event_name ` set ms \<longleftrightarrow> secsRemaining s = 0))"


text \<open>Every player object holds a number as its points.\<close>

definition numbers :: "player list \<Rightarrow> bool" where
  "numbers h = (\<forall>p \<in> set h. is_number (points p))"

text \<open>
  Two sessions and what they send: Alice (session \<open>s1\<close>, connection 0) joins room 0,
  Bob (session \<open>s2\<close>, connection 1) joins room 1; Alice asks to change to the room she is
  in, reports 9 points, reports -5 points.
\<close>

definition alice_ready :: ready_request where
  "alice_ready = room_request 0 ''s1'' (DOther ''0'') (Some (TagString ''Alice''))"

definition bob_ready :: ready_request where
  "bob_ready = room_request 1 ''s2'' (DOther ''1'') (Some (TagString ''Bob''))"

definition two_rooms :: server where
  "two_rooms = state_of (client_ready bob_ready (state_of (client_ready alice_ready in_play)))"

definition alice_same_room :: ready_request where
  "alice_same_room = room_request 0 ''s1'' (DStr ''0'') None"

definition lobby_alice :: server where
  "lobby_alice = state_of (client_ready alice_ready in_lobby)"

definition nine_points :: score_request where
  "nine_points = \<lparr>sock = 0, sessionID = ''s1'', data = Some (JNum 9)\<rparr>"

definition minus_five :: score_request where
  "minus_five = \<lparr>sock = 0, sessionID = ''s1'', data = Some (JNum (- 5))\<rparr>"

definition neg_points :: server where
  "neg_points = state_of (player_scored minus_five (state_of (client_ready alice_ready in_play)))"







text \<open>
  \<open>kept h h'\<close>: the player objects of the heap \<open>h\<close> have in \<open>h'\<close> the points they have in
  \<open>h\<close>.  \<open>enters_play i s\<close>: the input \<open>i\<close> is a tick that starts a round in state \<open>s\<close>
  (the first tick, when it falls into Play, or a recurring tick at 0 seconds).
  \<open>scores_in_play i s\<close>: the input is a \<open>player_scored\<close> received during Play.
\<close>

definition kept :: "player list \<Rightarrow> player list \<Rightarrow> bool" where
  "kept h h' = (map points (take (length h) h') = map points h)"

fun enters_play :: "input \<Rightarrow> server \<Rightarrow> bool" where
  "enters_play OneShot s = (secsRemaining s = 0 \<or> secsRemaining s > SECS_IN_LOBBY)"
| "enters_play (TimerTick now1 now2) s = (secsRemaining s = 0)"
| "enters_play i s = False"

fun scores_in_play :: "input \<Rightarrow> server \<Rightarrow> bool" where
  "scores_in_play (PlayerScored request) s = round_in_progress s"
| "scores_in_play i s = False"

section \<open>Proofs\<close>

section \<open>Arithmetic and the effects of the tick functions\<close>

lemma js_tdiv_nonneg: "0 \<le> a \<Longrightarrow> 0 < b \<Longrightarrow> js_tdiv a b = a div b"
  by (cases "a = 0") (simp_all add: js_tdiv_def)

lemma js_rem_nonneg: "0 \<le> a \<Longrightarrow> 0 < b \<Longrightarrow> js_rem a b = a mod b"
  by (simp add: js_rem_def js_tdiv_nonneg minus_mult_div_eq_mod)

lemma js_rem_one: "js_rem a 1 = 0"
proof -
  have "sgn a * \<bar>a\<bar> = a" by (cases "a < 0") (simp_all add: sgn_if)
  then show ?thesis by (simp add: js_rem_def js_tdiv_def)
qed

lemma msecUntilNextGame_eq:
  "msecUntilNextGame now = MSECS_IN_COMPLETE_CYCLE - now mod MSECS_IN_COMPLETE_CYCLE"
  by (simp add: msecUntilNextGame_def Let_def algebra_simps flip: minus_mult_div_eq_mod)

lemma msecUntilNextGame_range:
  "0 < msecUntilNextGame now \<and> msecUntilNextGame now \<le> MSECS_IN_COMPLETE_CYCLE"
proof -
  have "0 \<le> now mod MSECS_IN_COMPLETE_CYCLE \<and> now mod MSECS_IN_COMPLETE_CYCLE < MSECS_IN_COMPLETE_CYCLE"
    by (simp add: MSECS_IN_COMPLETE_CYCLE_def SECS_IN_COMPLETE_CYCLE_def)
  then show ?thesis by (simp add: msecUntilNextGame_eq)
qed

lemma rooms_eq: "rooms = [0, 1, 2, 3]"
  by (simp add: rooms_def MIN_ROOM_NUM_def NUM_ROOMS_def upto_rec1)

lemma deref_out [simp]: "deref (s\<lparr>out := x\<rparr>) = deref s"
  by (simp add: fun_eq_iff deref_def)

lemma entries_in_out [simp]: "entries_in (s\<lparr>out := x\<rparr>) r = entries_in s r"
  by (simp add: entries_in_def live_players_def)


lemma fold_playTick_room:
  "fold playTick_room rs s =
     s\<lparr>out := out s @
        map (\<lambda>r. RoomBroadcast r ''play_timer_update''
                    (PPlayTick (secsRemaining s - SECS_IN_LOBBY) (sort_entries (entries_in s r))))
          (filter (\<lambda>r. roomCount s r \<noteq> 0) rs)\<rparr>"
  by (induction rs arbitrary: s) (simp_all add: playTick_room_def send_def)

lemma playTick_eq:
  "playTick s =
     s\<lparr>out := out s @
        map (\<lambda>r. RoomBroadcast r ''play_timer_update''
                    (PPlayTick (secsRemaining s - SECS_IN_LOBBY) (sort_entries (entries_in s r))))
          (filter (\<lambda>r. roomCount s r \<noteq> 0) rooms)\<rparr>"
  by (simp add: playTick_def fold_playTick_room)

lemma fold_lobbyTick_room:
  "fold lobbyTick_room rs s =
     s\<lparr>out := out s @
        map (\<lambda>r. RoomBroadcast r ''lobby_timer_update'' (PSecs (secsRemaining s)))
          (filter (\<lambda>r. roomCount s r \<noteq> 0) rs)\<rparr>"
  by (induction rs arbitrary: s) (simp_all add: lobbyTick_room_def send_def)

lemma lobbyTick_eq:
  "lobbyTick s =
     s\<lparr>out := out s @
        map (\<lambda>r. RoomBroadcast r ''lobby_timer_update'' (PSecs (secsRemaining s)))
          (filter (\<lambda>r. roomCount s r \<noteq> 0) rooms)\<rparr>"
  by (simp add: lobbyTick_def fold_lobbyTick_room)

lemma broadcastRoundResults_room_eq:
  "\<exists>m rr. broadcastRoundResults_room r s = s\<lparr>round_results := rr, out := out s @ m\<rparr> \<and>
        (\<forall>e \<in> set m. event_name e = ''room_round_results'')"
proof (cases "roomCount s r \<noteq> 0 \<and> results_of s r \<noteq> []")
  case True
  let ?m = "[RoomBroadcast r ''room_round_results'' (PResults (sort_entries (results_of s r)))]"
  from True have "broadcastRoundResults_room r s =
      s\<lparr>round_results := (round_results s)(r := Some (sort_entries (results_of s r))),
        out := out s @ ?m\<rparr>"
    by (simp add: broadcastRoundResults_room_def send_def)
  moreover have "\<forall>e \<in> set ?m. event_name e = ''room_round_results''" by simp
  ultimately show ?thesis by blast
next
  case False
  then have "broadcastRoundResults_room r s = s\<lparr>round_results := round_results s, out := out s @ []\<rparr>"
    by (auto simp add: broadcastRoundResults_room_def)
  moreover have "\<forall>e \<in> set ([] :: effect list). event_name e = ''room_round_results''" by simp
  ultimately show ?thesis by blast
qed

lemma fold_broadcastRoundResults_room:
  "\<exists>ms rr. fold broadcastRoundResults_room rs s = s\<lparr>round_results := rr, out := out s @ ms\<rparr> \<and>
        (\<forall>e \<in> set ms. event_name e = ''room_round_results'')"
proof (induction rs arbitrary: s)
  case Nil
  have "fold broadcastRoundResults_room [] s = s\<lparr>round_results := round_results s, out := out s @ []\<rparr>"
    by simp
  moreover have "\<forall>e \<in> set ([] :: effect list). event_name e = ''room_round_results''" by simp
  ultimately show ?case by blast
next
  case (Cons r rs)
  obtain m rr where m: "broadcastRoundResults_room r s = s\<lparr>round_results := rr, out := out s @ m\<rparr>"
    and mn: "\<forall>e \<in> set m. event_name e = ''room_round_results''"
    using broadcastRoundResults_room_eq by blast
  obtain ms rr' where
    ms: "fold broadcastRoundResults_room rs (s\<lparr>round_results := rr, out := out s @ m\<rparr>)
           = (s\<lparr>round_results := rr, out := out s @ m\<rparr>)
               \<lparr>round_results := rr', out := out (s\<lparr>round_results := rr, out := out s @ m\<rparr>) @ ms\<rparr>"
    and msn: "\<forall>e \<in> set ms. event_name e = ''room_round_results''"
    using Cons.IH by blast
  have "fold broadcastRoundResults_room (r # rs) s = s\<lparr>round_results := rr', out := out s @ (m @ ms)\<rparr>"
    by (simp add: m ms)
  moreover have "\<forall>e \<in> set (m @ ms). event_name e = ''room_round_results''"
    using mn msn by (simp add: ball_Un)
  ultimately show ?case by blast
qed

lemma firstLobbyTick_eq:
  "\<exists>ms rr. firstLobbyTick s =
      s\<lparr>round_in_progress := False, round_results := rr,
        out := out s @ BroadcastAll ''round_ended'' (PSecs SECS_IN_LOBBY) # ms\<rparr> \<and>
      (\<forall>e \<in> set ms. event_name e = ''room_round_results'' \<or> event_name e = ''lobby_timer_update'')"
proof -
  define s3 where "s3 = createRoundResults (send (BroadcastAll ''round_ended'' (PSecs SECS_IN_LOBBY))
               (s\<lparr>round_in_progress := False\<rparr>))"
  obtain ms rr where b: "broadcastRoundResults s3 = s3\<lparr>round_results := rr, out := out s3 @ ms\<rparr>"
    and msn: "\<forall>e \<in> set ms. event_name e = ''room_round_results''"
    unfolding broadcastRoundResults_def using fold_broadcastRoundResults_room [of rooms s3] by blast
  let ?ls = "map (\<lambda>r. RoomBroadcast r ''lobby_timer_update'' (PSecs (secsRemaining s)))
          (filter (\<lambda>r. roomCount s r \<noteq> 0) rooms)"
  have f: "firstLobbyTick s = lobbyTick (broadcastRoundResults s3)"
    by (simp add: firstLobbyTick_def Let_def s3_def)
  have "lobbyTick (s3\<lparr>round_results := rr, out := out s3 @ ms\<rparr>) =
      s\<lparr>round_in_progress := False, round_results := rr,
        out := out s @ BroadcastAll ''round_ended'' (PSecs SECS_IN_LOBBY) # (ms @ ?ls)\<rparr>"
    by (simp add: lobbyTick_eq s3_def createRoundResults_def send_def)
  then have "firstLobbyTick s = s\<lparr>round_in_progress := False, round_results := rr,
        out := out s @ BroadcastAll ''round_ended'' (PSecs SECS_IN_LOBBY) # (ms @ ?ls)\<rparr>"
    by (simp only: f b)
  moreover have "\<forall>e \<in> set (ms @ ?ls).
      event_name e = ''room_round_results'' \<or> event_name e = ''lobby_timer_update''"
    using msn by (simp add: ball_Un)
  ultimately show ?thesis by blast
qed

lemma playTick_names:
  "\<exists>ms. playTick s = s\<lparr>out := out s @ ms\<rparr> \<and>
        (\<forall>e \<in> set ms. event_name e = ''play_timer_update'') \<and> (ms \<noteq> [] \<longleftrightarrow> occupied s)"
proof -
  let ?ms = "map (\<lambda>r. RoomBroadcast r ''play_timer_update''
                    (PPlayTick (secsRemaining s - SECS_IN_LOBBY) (sort_entries (entries_in s r))))
          (filter (\<lambda>r. roomCount s r \<noteq> 0) rooms)"
  have "\<forall>e \<in> set ?ms. event_name e = ''play_timer_update''" by simp
  moreover have "?ms \<noteq> [] \<longleftrightarrow> occupied s"
    by (simp add: occupied_def filter_empty_conv)
  ultimately show ?thesis using playTick_eq [of s] by blast
qed

lemma lobbyTick_names:
  "\<exists>ms. lobbyTick s = s\<lparr>out := out s @ ms\<rparr> \<and>
        (\<forall>e \<in> set ms. event_name e = ''lobby_timer_update'')"
proof -
  let ?ms = "map (\<lambda>r. RoomBroadcast r ''lobby_timer_update'' (PSecs (secsRemaining s)))
          (filter (\<lambda>r. roomCount s r \<noteq> 0) rooms)"
  have "\<forall>e \<in> set ?ms. event_name e = ''lobby_timer_update''" by simp
  then show ?thesis using lobbyTick_eq [of s] by blast
qed

lemma occupied_cong: "roomCount s' = roomCount s \<Longrightarrow> occupied s' = occupied s"
  by (simp add: occupied_def)

lemma firstPlayTick_eq:
  "\<exists>h ms. firstPlayTick s =
      s\<lparr>heap := h, round_in_progress := True,
        out := out s @ BroadcastAll ''round_started'' (PSecs (SECS_IN_COMPLETE_CYCLE - SECS_IN_LOBBY)) # ms\<rparr> \<and>
      (\<forall>e \<in> set ms. event_name e = ''play_timer_update'') \<and> (ms \<noteq> [] \<longleftrightarrow> occupied s)"
proof -
  let ?h = "fold reset_player (live_refs (all_players_list s)) (heap s)"
  define s3 where "s3 = send (BroadcastAll ''round_started'' (PSecs (SECS_IN_COMPLETE_CYCLE - SECS_IN_LOBBY)))
               (s\<lparr>heap := ?h, round_in_progress := True\<rparr>)"
  obtain ms where p: "playTick s3 = s3\<lparr>out := out s3 @ ms\<rparr>"
    and n: "\<forall>e \<in> set ms. event_name e = ''play_timer_update''" and e: "ms \<noteq> [] \<longleftrightarrow> occupied s3"
    using playTick_names by blast
  have "occupied s3 = occupied s" by (rule occupied_cong) (simp add: s3_def send_def)
  with e have e': "ms \<noteq> [] \<longleftrightarrow> occupied s" by simp
  have "firstPlayTick s = playTick s3" by (simp add: firstPlayTick_def Let_def s3_def)
  then have "firstPlayTick s = s\<lparr>heap := ?h, round_in_progress := True,
        out := out s @ BroadcastAll ''round_started'' (PSecs (SECS_IN_COMPLETE_CYCLE - SECS_IN_LOBBY)) # ms\<rparr>"
    by (simp add: p) (simp add: s3_def send_def)
  then show ?thesis using n e' by blast
qed

lemma adjustLobbySecs_eq:
  "adjustLobbySecs now s = s\<lparr>secsRemaining := coarse_adjusted now (secsRemaining s)\<rparr>"
proof -
  have "0 \<le> msecUntilNextGame now + 500"
    using msecUntilNextGame_range [of now] by simp
  then have "js_tdiv (msecUntilNextGame now + 500) 1000 = actual_secs now"
    by (simp add: js_tdiv_nonneg actual_secs_def)
  then show ?thesis
    by (simp add: adjustLobbySecs_def coarse_adjusted_def Let_def)
qed

lemma one_name_mem:
  "\<forall>e \<in> set ms. event_name e = a \<Longrightarrow> x \<in> event_name ` set ms \<longleftrightarrow> ms \<noteq> [] \<and> x = a"
  by (cases ms) auto

lemma two_names_notin:
  "\<forall>e \<in> set ms. event_name e = a \<or> event_name e = b \<Longrightarrow> x \<noteq> a \<Longrightarrow> x \<noteq> b
   \<Longrightarrow> x \<notin> event_name ` set ms"
  by auto

lemma tick_dispatch_out:
  "\<exists>ms. out (tick_dispatch now s) = out s @ ms \<and> dispatch_sends s ms"
proof -
  consider (play) "secsRemaining s > SECS_IN_LOBBY" | (last) "secsRemaining s = SECS_IN_LOBBY"
    | (adj) "secsRemaining s = SECS_IN_LOBBY - 1"
    | (zero) "secsRemaining s = 0"
    | (lobby) "secsRemaining s < SECS_IN_LOBBY - 1" "secsRemaining s \<noteq> 0"
    unfolding SECS_IN_LOBBY_def by linarith
  then show ?thesis
  proof cases
    case play
    obtain ms where p: "playTick s = s\<lparr>out := out s @ ms\<rparr>"
      and n: "\<forall>e \<in> set ms. event_name e = ''play_timer_update''" and e: "ms \<noteq> [] \<longleftrightarrow> occupied s"
      using playTick_names by blast
    have "tick_dispatch now s = s\<lparr>out := out s @ ms\<rparr>"
      using play by (simp add: tick_dispatch_def p Let_def)
    then have "out (tick_dispatch now s) = out s @ ms"
      by simp
    moreover have "dispatch_sends s ms"
      using play e by (simp add: dispatch_sends_def one_name_mem [OF n] SECS_IN_LOBBY_def)
    ultimately show ?thesis by blast
  next
    case last
    obtain ms where p: "playTick s = s\<lparr>out := out s @ ms\<rparr>"
      and n: "\<forall>e \<in> set ms. event_name e = ''play_timer_update''" and e: "ms \<noteq> [] \<longleftrightarrow> occupied s"
      using playTick_names by blast
    obtain ls rr where f: "firstLobbyTick (s\<lparr>out := out s @ ms\<rparr>) =
        (s\<lparr>out := out s @ ms\<rparr>)\<lparr>round_in_progress := False, round_results := rr,
          out := out (s\<lparr>out := out s @ ms\<rparr>) @ BroadcastAll ''round_ended'' (PSecs SECS_IN_LOBBY) # ls\<rparr>"
      and l: "\<forall>e \<in> set ls. event_name e = ''room_round_results'' \<or> event_name e = ''lobby_timer_update''"
      using firstLobbyTick_eq [of "s\<lparr>out := out s @ ms\<rparr>"] by blast
    have "tick_dispatch now s = firstLobbyTick (s\<lparr>out := out s @ ms\<rparr>)"
      using last by (simp add: tick_dispatch_def p Let_def)
    then have "out (tick_dispatch now s) = out s @ (ms @ BroadcastAll ''round_ended'' (PSecs SECS_IN_LOBBY) # ls)"
      by (simp add: f)
    moreover have "dispatch_sends s (ms @ BroadcastAll ''round_ended'' (PSecs SECS_IN_LOBBY) # ls)"
      using last e
      by (simp add: dispatch_sends_def image_Un one_name_mem [OF n] two_names_notin [OF l]
          SECS_IN_LOBBY_def)
    ultimately show ?thesis by blast
  next
    case adj
    obtain ms where p: "lobbyTick (adjustLobbySecs now s) =
        (adjustLobbySecs now s)\<lparr>out := out (adjustLobbySecs now s) @ ms\<rparr>"
      and n: "\<forall>e \<in> set ms. event_name e = ''lobby_timer_update''"
      using lobbyTick_names by blast
    have "tick_dispatch now s = lobbyTick (adjustLobbySecs now s)"
      using adj by (simp add: tick_dispatch_def SECS_IN_LOBBY_def)
    moreover have "out (adjustLobbySecs now s) = out s"
      by (simp add: adjustLobbySecs_eq)
    ultimately have "out (tick_dispatch now s) = out s @ ms"
      using p by simp
    moreover have "dispatch_sends s ms"
      using adj by (simp add: dispatch_sends_def one_name_mem [OF n] SECS_IN_LOBBY_def)
    ultimately show ?thesis by blast
  next
    case lobby
    obtain ms where p: "lobbyTick s = s\<lparr>out := out s @ ms\<rparr>"
      and n: "\<forall>e \<in> set ms. event_name e = ''lobby_timer_update''"
      using lobbyTick_names by blast
    have "tick_dispatch now s = s\<lparr>out := out s @ ms\<rparr>"
      using lobby by (simp add: tick_dispatch_def p Let_def SECS_IN_LOBBY_def)
    then have "out (tick_dispatch now s) = out s @ ms"
      by simp
    moreover have "dispatch_sends s ms"
      using lobby by (simp add: dispatch_sends_def one_name_mem [OF n] SECS_IN_LOBBY_def)
    ultimately show ?thesis by blast
  next
    case zero
    obtain ms where p: "lobbyTick s = s\<lparr>out := out s @ ms\<rparr>"
      and n: "\<forall>e \<in> set ms. event_name e = ''lobby_timer_update''"
      using lobbyTick_names by blast
    let ?s1 = "s\<lparr>out := out s @ ms, secsRemaining := SECS_IN_COMPLETE_CYCLE\<rparr>"
    obtain h ps where f: "firstPlayTick ?s1 =
        ?s1\<lparr>heap := h, round_in_progress := True,
          out := out ?s1 @ BroadcastAll ''round_started'' (PSecs (SECS_IN_COMPLETE_CYCLE - SECS_IN_LOBBY)) # ps\<rparr>"
      and l: "\<forall>e \<in> set ps. event_name e = ''play_timer_update''" and e: "ps \<noteq> [] \<longleftrightarrow> occupied ?s1"
      using firstPlayTick_eq [of ?s1] by blast
    have o: "occupied ?s1 = occupied s" by (rule occupied_cong) simp
    have "tick_dispatch now s = firstPlayTick ?s1"
      using zero by (simp add: tick_dispatch_def p Let_def SECS_IN_LOBBY_def)
    then have "out (tick_dispatch now s) =
        out s @ (ms @ BroadcastAll ''round_started'' (PSecs (SECS_IN_COMPLETE_CYCLE - SECS_IN_LOBBY)) # ps)"
      by (simp add: f)
    moreover have "dispatch_sends s
        (ms @ BroadcastAll ''round_started'' (PSecs (SECS_IN_COMPLETE_CYCLE - SECS_IN_LOBBY)) # ps)"
      using zero e o
      by (simp add: dispatch_sends_def image_Un one_name_mem [OF n] one_name_mem [OF l]
          SECS_IN_LOBBY_def)
    ultimately show ?thesis by blast
  qed
qed

lemma calibrateTimer_with_eq:
  "calibrateTimer_with larger now s =
     (if newTimerInterval larger (msecClkErr now) = currentTimerInterval s then s
      else s\<lparr>currentTimerInterval := newTimerInterval larger (msecClkErr now),
             timerIntervalObj := Some (newTimerInterval larger (msecClkErr now)),
             out := out s @ [ClearInterval, SetInterval (newTimerInterval larger (msecClkErr now))]\<rparr>)"
  by (auto simp add: calibrateTimer_with_def Let_def send_def)

lemma timerTick_eq:
  "timerTick now1 now2 s =
     (calibrateTimer now2 (tick_dispatch now1 s))
       \<lparr>secsRemaining := secsRemaining (tick_dispatch now1 s) - 1\<rparr>"
  by (simp add: timerTick_def Let_def SECS_PER_CALIBRATION_def js_rem_one calibrateTimer_def
      calibrateTimer_with_eq)

lemma timerTick_out:
  "\<exists>ms. out (timerTick now1 now2 s) = out s @ ms \<and> dispatch_sends s ms"
proof -
  obtain ms where o: "out (tick_dispatch now1 s) = out s @ ms" and n: "dispatch_sends s ms"
    using tick_dispatch_out [of now1 s] by blast
  let ?n = "newTimerInterval USE_LARGER_CLOCK_SKEW (msecClkErr now2)"
  let ?cs = "if ?n = currentTimerInterval (tick_dispatch now1 s) then [] else [ClearInterval, SetInterval ?n]"
  have "out (timerTick now1 now2 s) = out s @ (ms @ ?cs)"
    by (simp add: timerTick_eq calibrateTimer_def calibrateTimer_with_eq o)
  moreover have "dispatch_sends s (ms @ ?cs)"
    using n by (simp add: dispatch_sends_def image_Un)
  ultimately show ?thesis by blast
qed

lemma tick_dispatch_secs:
  "secsRemaining (tick_dispatch now s) =
     (if secsRemaining s = SECS_IN_LOBBY - 1 then coarse_adjusted now (secsRemaining s)
      else if secsRemaining s = 0 then SECS_IN_COMPLETE_CYCLE
      else secsRemaining s)"
proof -
  have 1: "secsRemaining (playTick x) = secsRemaining x" for x by (simp add: playTick_eq)
  have 2: "secsRemaining (lobbyTick x) = secsRemaining x" for x by (simp add: lobbyTick_eq)
  have 3: "secsRemaining (firstLobbyTick x) = secsRemaining x" for x
    using firstLobbyTick_eq [of x] by auto
  have 4: "secsRemaining (firstPlayTick x) = secsRemaining x" for x
    using firstPlayTick_eq [of x] by auto
  show ?thesis
    by (simp add: tick_dispatch_def Let_def 1 2 3 4 adjustLobbySecs_eq SECS_IN_LOBBY_def)
qed

lemma coarse_adjusted_lower: "secs - SECS_MAX_SKIP_FWD \<le> coarse_adjusted now secs"
  by (simp add: coarse_adjusted_def SECS_MAX_SKIP_FWD_def)

lemma timerTick_secs_lower:
  "(if secsRemaining s = SECS_IN_LOBBY - 1 then SECS_IN_LOBBY - 1 - SECS_MAX_SKIP_FWD - 1
    else secsRemaining s - 1) \<le> secsRemaining (timerTick now1 now2 s)"
  using coarse_adjusted_lower [of "secsRemaining s" now1]
  by (auto simp add: timerTick_eq tick_dispatch_secs SECS_IN_COMPLETE_CYCLE_def SECS_IN_LOBBY_def
      SECS_MAX_SKIP_FWD_def)

lemma run_ticks_lower:
  "m \<le> secsRemaining s \<Longrightarrow> m \<le> SECS_IN_LOBBY - 1 - SECS_MAX_SKIP_FWD \<Longrightarrow>
   m - int (length clk) \<le> secsRemaining (run_ticks clk s)"
proof (induction clk arbitrary: s m)
  case Nil
  then show ?case by (simp add: run_ticks_def)
next
  case (Cons c clk)
  obtain now1 now2 where c: "c = (now1, now2)" by (cases c)
  have "m - 1 \<le> secsRemaining (timerTick now1 now2 s)"
    using timerTick_secs_lower [of s now1 now2] Cons.prems
    by (simp add: SECS_IN_LOBBY_def SECS_MAX_SKIP_FWD_def split: if_splits)
  moreover have "m - 1 \<le> SECS_IN_LOBBY - 1 - SECS_MAX_SKIP_FWD" using Cons.prems by simp
  ultimately have "m - 1 - int (length clk) \<le> secsRemaining (run_ticks clk (timerTick now1 now2 s))"
    by (rule Cons.IH)
  then show ?case by (simp add: run_ticks_def c)
qed

lemma run_ticks_from_lobby:
  assumes "secsRemaining s = SECS_IN_LOBBY - 1" and "clk \<noteq> []"
  shows "SECS_IN_LOBBY - 1 - SECS_MAX_SKIP_FWD - int (length clk) \<le> secsRemaining (run_ticks clk s)"
proof -
  obtain c rest where clk: "clk = c # rest" using assms(2) by (cases clk) auto
  obtain now1 now2 where c: "c = (now1, now2)" by (cases c)
  have "SECS_IN_LOBBY - 1 - SECS_MAX_SKIP_FWD - 1 \<le> secsRemaining (timerTick now1 now2 s)"
    using timerTick_secs_lower [of s now1 now2] assms(1) by simp
  then have "SECS_IN_LOBBY - 1 - SECS_MAX_SKIP_FWD - 1 - int (length rest)
      \<le> secsRemaining (run_ticks rest (timerTick now1 now2 s))"
    by (rule run_ticks_lower) simp
  then show ?thesis by (simp add: run_ticks_def clk c)
qed

lemma next_cycle_range:
  "msecUntilNextGame now = next_cycle now - now \<and>
   0 < next_cycle now - now \<and> next_cycle now - now \<le> MSECS_IN_COMPLETE_CYCLE"
proof -
  have m: "msecUntilNextGame now = next_cycle now - now"
    by (simp add: msecUntilNextGame_def next_cycle_def Let_def algebra_simps)
  then show ?thesis using msecUntilNextGame_range [of now] by simp
qed

lemma start_eq:
  "start now s =
     s\<lparr>secsRemaining := (next_cycle now - now) div 1000,
       timerTimeoutObj := Some ((next_cycle now - now) mod 1000 + initMSecOffset),
       out := out s @ [SetTimeout ((next_cycle now - now) mod 1000 + initMSecOffset)],
       currentTimerInterval := NORMAL_TIMER_INTERVAL\<rparr>"
proof -
  have p: "0 \<le> next_cycle now - now" using next_cycle_range [of now] by simp
  show ?thesis
    by (simp add: start_def Let_def next_cycle_range js_tdiv_nonneg [OF p] js_rem_nonneg [OF p]
        delayStart_def send_def)
qed

section \<open>The routes\<close>

lemma determineDifficultyLevel_spec:
  "determineDifficultyLevel request s =
     (case determine_room request of
        Inl e \<Rightarrow> (- 1, s\<lparr>out := out s @ [Emit (sock request) ''error_client_ready''
                                          (PErrInput (error_str e) (user_input request e))]\<rparr>)
      | Inr n \<Rightarrow> (n, s))"
  by (simp add: determineDifficultyLevel_def determine_room_def user_input_def send_def
      error_client_ready_def split: option.splits)

lemma determine_room_range:
  "determine_room request = Inr n \<Longrightarrow> MIN_ROOM_NUM \<le> n \<and> n < MIN_ROOM_NUM + NUM_ROOMS"
  by (auto simp add: determine_room_def split: if_splits)

lemma client_ready_error:
  "determine_room request = Inl e \<Longrightarrow>
   client_ready request s =
     Returned (s\<lparr>out := out s @ [Emit (sock request) ''error_client_ready''
                                   (PErrInput (error_str e) (user_input request e))]\<rparr>)"
  by (simp add: client_ready_def determineDifficultyLevel_spec)

lemma change_room_error:
  "determine_room request = Inl e \<Longrightarrow>
   change_room request s =
     Returned (s\<lparr>out := out s @ [Emit (sock request) ''error_client_ready''
                                   (PErrInput (error_str e) (user_input request e))]\<rparr>)"
  by (simp add: change_room_def determineDifficultyLevel_spec)

lemma emitRoundEventAndResults_state:
  "\<exists>ms. state_of (emitRoundEventAndResults c b r s) = s\<lparr>out := out s @ ms\<rparr>"
proof (cases b)
  case True
  then have "state_of (emitRoundEventAndResults c b r s) =
      s\<lparr>out := out s @ [Emit c ''round_started'' (PSecs (SECS_IN_COMPLETE_CYCLE - SECS_IN_LOBBY))]\<rparr>"
    by (simp add: emitRoundEventAndResults_def send_def)
  then show ?thesis by blast
next
  case False
  show ?thesis
  proof (cases "round_results s r")
    case None
    with False have "state_of (emitRoundEventAndResults c b r s) =
        s\<lparr>out := out s @ [Emit c ''round_ended'' (PSecs SECS_IN_LOBBY)]\<rparr>"
      by (simp add: emitRoundEventAndResults_def send_def Let_def)
    then show ?thesis by blast
  next
    case (Some es)
    with False have "state_of (emitRoundEventAndResults c b r s) =
        s\<lparr>out := out s @ (Emit c ''round_ended'' (PSecs SECS_IN_LOBBY) #
               (if es \<noteq> [] then [Emit c ''room_round_results'' (PResults es)] else []))\<rparr>"
      by (simp add: emitRoundEventAndResults_def send_def Let_def)
    then show ?thesis by blast
  qed
qed

lemma guest_tag_state: "\<exists>tag g. guest_tag s = (tag, s\<lparr>num_guests := g\<rparr>)"
  unfolding guest_tag_def by blast

lemma determineTag_cases:
  "determineTag prof s = Inl TypeError \<and> profile_tag prof = Some TagOther \<or>
   (\<exists>tag g. determineTag prof s = Inr (tag, s\<lparr>num_guests := g\<rparr>)) \<and> profile_tag prof \<noteq> Some TagOther"
proof (cases "profile_tag prof")
  case None
  then show ?thesis using guest_tag_state [of s] by (simp add: determineTag_def)
next
  case (Some v)
  show ?thesis
  proof (cases v)
    case (TagString tag)
    have "\<exists>g. s = s\<lparr>num_guests := g\<rparr>" by (rule exI [of _ "num_guests s"]) simp
    then show ?thesis
      using Some TagString guest_tag_state [of s] by (simp add: determineTag_def)
  next
    case TagOther
    then show ?thesis using Some by (simp add: determineTag_def)
  qed
qed

lemma determineTag_state:
  "profile_tag prof \<noteq> Some TagOther \<Longrightarrow>
   \<exists>tag g. determineTag prof s = Inr (tag, s\<lparr>num_guests := g\<rparr>)"
  using determineTag_cases [of prof s] by blast

lemma client_ready_bad_tag:
  assumes v: "determine_room request = Inr n"
    and f: "checkClientAlreadyConnected request s = None"
    and b: "profile_tag (the (the (data request))) = Some TagOther"
  shows "client_ready request s = Threw TypeError s"
proof -
  have n1: "n \<noteq> - 1" using determine_room_range [OF v] by (simp add: MIN_ROOM_NUM_def)
  show ?thesis
    using n1 by (simp add: client_ready_def determineDifficultyLevel_spec v f determineTag_def b)
qed

lemma client_ready_fresh:
  assumes v: "determine_room request = Inr n"
    and f: "checkClientAlreadyConnected request s = None"
    and se: "session_player s (sock request) \<noteq> None"
    and ok: "profile_tag (the (the (data request))) \<noteq> Some TagOther"
  shows "\<exists>tag g ms. state_of (client_ready request s) =
      s\<lparr>num_guests := g,
        heap := heap s @ [\<lparr>player_tag = tag, points = JNum 0, diff_lvl = n,
                              incomplete_round = round_in_progress s, ref_count = 1\<rparr>],
        player_var := Some (SRef (length (heap s))),
        all_players_list := AList.update (sessionID request) (SRef (length (heap s))) (all_players_list s),
        session_player := (session_player s)(sock request := Some (SRef (length (heap s)))),
        roomCount := (roomCount s)(n := roomCount s n + 1),
        members := insert (sock request, n) (members s),
        out := out s @ ms\<rparr>"
proof -
  have n1: "n \<noteq> - 1" using determine_room_range [OF v] by (simp add: MIN_ROOM_NUM_def)
  obtain tag g where tg: "determineTag (the (the (data request))) s = Inr (tag, s\<lparr>num_guests := g\<rparr>)"
    using determineTag_state [OF ok] by blast
  define p where "p = \<lparr>player_tag = tag, points = JNum 0, diff_lvl = n,
                              incomplete_round = round_in_progress s, ref_count = 1\<rparr>"
  define s6 where "s6 = s\<lparr>num_guests := g,
        heap := heap s @ [p],
        player_var := Some (SRef (length (heap s))),
        all_players_list := AList.update (sessionID request) (SRef (length (heap s))) (all_players_list s),
        session_player := (session_player s)(sock request := Some (SRef (length (heap s)))),
        roomCount := (roomCount s)(n := roomCount s n + 1),
        members := insert (sock request, n) (members s),
        out := out s @ [Emit (sock request) ''client_confirmed'' (PPlayer p),
                        RoomBroadcastFrom (sock request) n ''gamer_entered_room'' (PEntry (tag, JNum 0))]\<rparr>"
  define s7 where "s7 = emitPlayersAlreadyInRoom (sock request) p s6"
  have c: "client_ready request s = emitRoundEventAndResults (sock request) (round_in_progress s7) n s7"
    using se n1
    by (auto simp add: client_ready_def determineDifficultyLevel_spec v f tg Let_def
        set_session_player_def send_def attachPlayerToRoom_def s7_def s6_def p_def)
  obtain ms where "state_of (emitRoundEventAndResults (sock request) (round_in_progress s7) n s7)
      = s7\<lparr>out := out s7 @ ms\<rparr>"
    using emitRoundEventAndResults_state by blast
  then have "state_of (client_ready request s) =
      s\<lparr>num_guests := g,
        heap := heap s @ [p],
        player_var := Some (SRef (length (heap s))),
        all_players_list := AList.update (sessionID request) (SRef (length (heap s))) (all_players_list s),
        session_player := (session_player s)(sock request := Some (SRef (length (heap s)))),
        roomCount := (roomCount s)(n := roomCount s n + 1),
        members := insert (sock request, n) (members s),
        out := out s @ ([Emit (sock request) ''client_confirmed'' (PPlayer p),
                        RoomBroadcastFrom (sock request) n ''gamer_entered_room'' (PEntry (tag, JNum 0)),
                        Emit (sock request) ''gamers_already_in_room'' (PLeaders (entries_in s6 n))] @ ms)\<rparr>"
    by (simp add: c s7_def emitPlayersAlreadyInRoom_def send_def) (simp add: s6_def p_def)
  then show ?thesis unfolding p_def by blast
qed




section \<open>Sessions, the registry and the scores\<close>




lemma numbers_update:
  assumes "numbers h" and "r < length h \<Longrightarrow> is_number (points (h ! r)) \<Longrightarrow> is_number (points x)"
  shows "numbers (h[r := x])"
proof (cases "r < length h")
  case True
  then have "is_number (points (h ! r))" using assms(1) by (simp add: numbers_def)
  then have "is_number (points x)" using True assms(2) by simp
  then show ?thesis
    using assms(1) set_update_subset_insert [of h r x] by (auto simp add: numbers_def)
next
  case False
  then have "length h \<le> r" by simp
  then show ?thesis using assms(1) by (simp add: list_update_beyond)
qed

lemma numbers_nth: "numbers h \<Longrightarrow> r < length h \<Longrightarrow> is_number (points (h ! r))"
  by (simp add: numbers_def)

lemma numbers_reset: "numbers h \<Longrightarrow> numbers (fold reset_player rs h)"
proof (induction rs arbitrary: h)
  case Nil
  then show ?case by simp
next
  case (Cons r rs)
  have "numbers (reset_player r h)"
    unfolding reset_player_def using Cons.prems
    by (auto intro!: numbers_update simp add: is_number_def)
  then show ?case using Cons.IH by simp
qed

lemma heap_send [simp]: "heap (send e s) = heap s"
  by (simp add: send_def)

lemma heap_set_session_player [simp]: "heap (set_session_player c v s) = heap s"
  by (simp add: set_session_player_def)

lemma heap_attachPlayerToRoom [simp]: "heap (attachPlayerToRoom c p s) = heap s"
  by (simp add: attachPlayerToRoom_def Let_def)

lemma heap_detachPlayerFromRoom [simp]: "heap (detachPlayerFromRoom c p s) = heap s"
  by (simp add: detachPlayerFromRoom_def Let_def)

lemma heap_emitPlayersAlreadyInRoom [simp]: "heap (emitPlayersAlreadyInRoom c p s) = heap s"
  by (simp add: emitPlayersAlreadyInRoom_def)

lemma heap_emitRoundEventAndResults [simp]:
  "heap (state_of (emitRoundEventAndResults c b r s)) = heap s"
proof -
  obtain ms where "state_of (emitRoundEventAndResults c b r s) = s\<lparr>out := out s @ ms\<rparr>"
    using emitRoundEventAndResults_state by blast
  then show ?thesis by simp
qed

lemma heap_determineDifficultyLevel [simp]: "heap (snd (determineDifficultyLevel request s)) = heap s"
  by (simp add: determineDifficultyLevel_spec split: sum.splits)

lemma heap_update_player [simp]: "heap (update_player r f s) = (heap s)[r := f (heap s ! r)]"
  by (simp add: update_player_def)

lemma numbers_client_ready:
  assumes "numbers (heap s)"
  shows "numbers (heap (state_of (client_ready request s)))"
proof (cases "determine_room request")
  case (Inl e)
  then show ?thesis using assms by (simp add: client_ready_error)
next
  case (Inr n)
  then have n1: "n \<noteq> - 1" using determine_room_range [OF Inr] by (simp add: MIN_ROOM_NUM_def)
  show ?thesis
  proof (cases "checkClientAlreadyConnected request s")
    case (Some res)
    then have "client_ready request s = res"
      using n1 by (simp add: client_ready_def determineDifficultyLevel_spec Inr)
    moreover have "numbers (heap (state_of res))"
      using Some assms
      by (auto simp add: checkClientAlreadyConnected_def intro!: numbers_update
          split: option.splits slot.splits)
    ultimately show ?thesis by simp
  next
    case None
    show ?thesis
    proof (cases "profile_tag (the (the (data request))) = Some TagOther")
      case True
      then show ?thesis using assms by (simp add: client_ready_bad_tag [OF Inr None])
    next
      case False
      obtain tag g where t: "determineTag (the (the (data request))) s = Inr (tag, s\<lparr>num_guests := g\<rparr>)"
        using determineTag_state [OF False] by blast
      have "heap (state_of (client_ready request s)) =
          heap s @ [\<lparr>player_tag = tag, points = JNum 0, diff_lvl = n,
                      incomplete_round = round_in_progress s, ref_count = 1\<rparr>]"
        using n1
        by (simp add: client_ready_def determineDifficultyLevel_spec Inr None t Let_def
            split: option.splits)
      then show ?thesis using assms by (simp add: numbers_def is_number_def)
    qed
  qed
qed

lemma numbers_change_room:
  assumes "numbers (heap s)"
  shows "numbers (heap (state_of (change_room request s)))"
proof (cases "determine_room request")
  case (Inl e)
  then show ?thesis using assms by (simp add: change_room_error)
next
  case (Inr n)
  then have n1: "n \<noteq> - 1" using determine_room_range [OF Inr] by (simp add: MIN_ROOM_NUM_def)
  show ?thesis
    using assms n1
    by (auto simp add: change_room_def determineDifficultyLevel_spec Inr Let_def session_ref_def
        intro!: numbers_update split: option.splits slot.splits if_splits)
qed

lemma numbers_disconnect:
  assumes "numbers (heap s)"
  shows "numbers (heap (state_of (disconnect request s)))"
  using assms
  by (auto simp add: disconnect_def Let_def session_ref_def
      intro!: numbers_update split: option.splits slot.splits if_splits)

lemma numbers_request_final_score:
  assumes "numbers (heap s)"
  shows "numbers (heap (state_of (request_final_score request s)))"
  using assms
  by (auto simp add: request_final_score_def Let_def session_ref_def
      intro!: numbers_update split: option.splits slot.splits if_splits)

lemma not_nullish_number: "\<not> is_nullish v \<Longrightarrow> is_number v"
  by (cases v) (simp_all add: is_nullish_def is_number_def)

lemma numbers_player_scored:
  assumes "numbers (heap s)"
  shows "numbers (heap (state_of (player_scored request s)))"
  using assms
  by (auto simp add: player_scored_def Let_def session_ref_def is_number_def
      intro!: numbers_update dest: not_nullish_number [unfolded is_number_def]
      split: option.splits slot.splits if_splits)

lemma heap_firstLobbyTick: "heap (firstLobbyTick s) = heap s"
  using firstLobbyTick_eq [of s] by auto

lemma heap_firstPlayTick:
  "heap (firstPlayTick s) = fold reset_player (live_refs (all_players_list s)) (heap s)"
  by (simp add: firstPlayTick_def Let_def playTick_eq send_def)

lemma numbers_firstTick: "numbers (heap s) \<Longrightarrow> numbers (heap (firstTick s))"
  by (simp add: firstTick_def Let_def heap_firstLobbyTick heap_firstPlayTick numbers_reset)

lemma numbers_tick_dispatch: "numbers (heap s) \<Longrightarrow> numbers (heap (tick_dispatch now s))"
  by (simp add: tick_dispatch_def Let_def heap_firstLobbyTick heap_firstPlayTick numbers_reset
      playTick_eq lobbyTick_eq adjustLobbySecs_eq)

lemma numbers_timerTick: "numbers (heap s) \<Longrightarrow> numbers (heap (timerTick now1 now2 s))"
  using numbers_tick_dispatch [of s now1]
  by (simp add: timerTick_eq calibrateTimer_def calibrateTimer_with_eq)

lemma numbers_handle: "numbers (heap s) \<Longrightarrow> numbers (heap (state_of (handle i s)))"
proof (cases i)
  case OneShot
  assume "numbers (heap s)"
  then show ?thesis using OneShot by (simp add: oneShot_def Let_def numbers_firstTick)
next
  case (TimerTick now1 now2)
  assume "numbers (heap s)"
  then show ?thesis using TimerTick by (simp add: numbers_timerTick)
next
  case (ClientReady request)
  assume "numbers (heap s)"
  then show ?thesis using ClientReady by (simp add: numbers_client_ready)
next
  case (ChangeRoom request)
  assume "numbers (heap s)"
  then show ?thesis using ChangeRoom by (simp add: numbers_change_room)
next
  case (Disconnect request)
  assume "numbers (heap s)"
  then show ?thesis using Disconnect by (simp add: numbers_disconnect)
next
  case (PlayerScored request)
  assume "numbers (heap s)"
  then show ?thesis using PlayerScored by (simp add: numbers_player_scored)
next
  case (RequestFinalScore request)
  assume "numbers (heap s)"
  then show ?thesis using RequestFinalScore by (simp add: numbers_request_final_score)
qed

lemma reachable_numbers: "reachable s \<Longrightarrow> numbers (heap s)"
proof (induction rule: reachable.induct)
  case (init sp now)
  show ?case by (simp add: start_eq init_server_def numbers_def)
next
  case (step s i)
  then show ?case by (simp add: numbers_handle)
qed

lemma live_players_heap: "set (live_players s) \<subseteq> set (heap s)"
  by (auto simp add: live_players_def List.map_filter_def deref_def split: if_splits)

lemma reachable_start: "reachable (start now init_server)"
proof -
  have "init_server\<lparr>session_player := \<lambda>_. Some SUndefined\<rparr> = init_server"
    by (simp add: init_server_def)
  moreover have "fresh_sessions (\<lambda>_. Some SUndefined)" by (simp add: fresh_sessions_def)
  ultimately show ?thesis using reachable.init [of "\<lambda>_. Some SUndefined" now] by simp
qed

lemma reachable_in_play: "reachable in_play"
  using reachable.step [OF reachable_start [of 1000], of OneShot] by (simp add: in_play_def)

lemma reachable_in_lobby: "reachable in_lobby"
  using reachable.step [OF reachable_start [of 150000], of OneShot] by (simp add: in_lobby_def)

lemma player_scored_lobby:
  assumes "numbers (heap s)" and "\<not> round_in_progress s"
  shows "\<exists>ms. player_scored request s = Returned (s\<lparr>out := out s @ ms\<rparr>)"
proof -
  have e: "\<exists>ms. Returned (send m s) = Returned (s\<lparr>out := out s @ ms\<rparr>)" for m
    by (rule exI [of _ "[m]"]) (simp add: send_def)
  have n: "\<exists>ms. Returned s = Returned (s\<lparr>out := out s @ ms\<rparr>)"
    by (rule exI [of _ "[]"]) simp
  have k: "\<not> is_nullish (points (heap s ! r))" if "session_ref s (sock request) = Some r" for r
  proof -
    from that have "r < length (heap s)"
      by (auto simp add: session_ref_def split: option.splits slot.splits if_splits)
    then have "is_number (points (heap s ! r))" using assms(1) by (simp add: numbers_def)
    then show ?thesis by (cases "points (heap s ! r)") (simp_all add: is_number_def is_nullish_def)
  qed
  show ?thesis
    using assms(2) e n k
    by (auto simp add: player_scored_def Let_def split: option.splits)
qed

lemma reachable_neg_points: "reachable neg_points"
  using reachable.step [OF reachable.step [OF reachable_in_play, of "ClientReady alice_ready"],
      of "PlayerScored minus_five"]
  by (simp add: neg_points_def)


section \<open>Sequences of attaches and detaches, points, room changes\<close>







lemma kept_refl: "kept h h"
  by (simp add: kept_def)

lemma kept_update: "points x = points (h ! r) \<Longrightarrow> kept h (h[r := x])"
proof (cases "r < length h")
  case True
  assume "points x = points (h ! r)"
  then have "(map points h)[r := points x] = map points h"
    using True by (simp add: list_update_same_conv)
  then show ?thesis by (simp add: kept_def map_update)
next
  case False
  then have "length h \<le> r" by simp
  then show ?thesis by (simp add: kept_def list_update_beyond)
qed

lemma kept_append: "kept h (h @ [p])"
  by (simp add: kept_def)

lemma reset_player_length [simp]: "length (reset_player r h) = length h"
  by (simp add: reset_player_def)

lemma fold_reset_length [simp]: "length (fold reset_player rs h) = length h"
  by (induction rs arbitrary: h) simp_all

lemma reset_keeps_zero:
  "points (h ! i) = JNum 0 \<Longrightarrow> points (reset_player r h ! i) = JNum 0"
  by (cases "i = r") (simp_all add: reset_player_def)

lemma fold_reset_keeps_zero:
  "points (h ! i) = JNum 0 \<Longrightarrow> points (fold reset_player rs h ! i) = JNum 0"
  by (induction rs arbitrary: h) (simp_all add: reset_keeps_zero)

lemma fold_reset_zero:
  "i \<in> set rs \<Longrightarrow> i < length h \<Longrightarrow> points (fold reset_player rs h ! i) = JNum 0"
proof (induction rs arbitrary: h)
  case Nil
  then show ?case by simp
next
  case (Cons r rs)
  show ?case
  proof (cases "i = r")
    case True
    then have "points (reset_player r h ! i) = JNum 0"
      using Cons.prems(2) by (simp add: reset_player_def)
    then show ?thesis by (simp add: fold_reset_keeps_zero)
  next
    case False
    then have "i \<in> set rs" using Cons.prems(1) by simp
    then show ?thesis using Cons.IH [of "reset_player r h"] Cons.prems(2) by simp
  qed
qed

lemma live_players_cong:
  "heap s' = heap s \<Longrightarrow> all_players_list s' = all_players_list s \<Longrightarrow> live_players s' = live_players s"
proof -
  assume a: "heap s' = heap s" and b: "all_players_list s' = all_players_list s"
  have "deref s' = deref s" by (simp add: fun_eq_iff deref_def a)
  then show ?thesis by (simp add: live_players_def b)
qed

lemma all_players_list_firstPlayTick: "all_players_list (firstPlayTick s) = all_players_list s"
  using firstPlayTick_eq [of s] by auto

lemma live_players_mem:
  "p \<in> set (live_players s) \<Longrightarrow>
   \<exists>r \<in> set (live_refs (all_players_list s)). r < length (heap s) \<and> p = heap s ! r"
  by (auto simp add: live_players_def List.map_filter_def deref_def split: if_splits)

lemma firstPlayTick_zero:
  assumes "p \<in> set (live_players (firstPlayTick s))"
  shows "points p = JNum 0"
proof -
  obtain r where r: "r \<in> set (live_refs (all_players_list s))" and l: "r < length (heap s)"
    and p: "p = heap (firstPlayTick s) ! r"
    using live_players_mem [OF assms] by (auto simp add: all_players_list_firstPlayTick heap_firstPlayTick)
  show ?thesis using r l by (simp add: p heap_firstPlayTick fold_reset_zero)
qed

lemma timerTick_enters_play:
  assumes "secsRemaining s = 0"
  shows "live_players (timerTick now1 now2 s) =
         live_players (firstPlayTick ((lobbyTick s)\<lparr>secsRemaining := SECS_IN_COMPLETE_CYCLE\<rparr>))"
proof -
  have "secsRemaining (lobbyTick s) = 0" using assms by (simp add: lobbyTick_eq)
  then have d: "tick_dispatch now1 s = firstPlayTick ((lobbyTick s)\<lparr>secsRemaining := SECS_IN_COMPLETE_CYCLE\<rparr>)"
    using assms by (simp add: tick_dispatch_def Let_def SECS_IN_LOBBY_def)
  show ?thesis
    by (rule live_players_cong)
       (simp_all add: timerTick_eq calibrateTimer_def calibrateTimer_with_eq d)
qed

lemma firstTick_enters_play:
  assumes "secsRemaining s = 0 \<or> secsRemaining s > SECS_IN_LOBBY"
  shows "\<exists>s'. live_players (firstTick s) = live_players (firstPlayTick s')"
proof -
  let ?s1 = "if secsRemaining s = 0 then s\<lparr>secsRemaining := SECS_IN_COMPLETE_CYCLE\<rparr> else s"
  have "\<not> secsRemaining ?s1 \<le> SECS_IN_LOBBY"
    using assms by (auto simp add: SECS_IN_COMPLETE_CYCLE_def SECS_IN_LOBBY_def)
  then have "live_players (firstTick s) = live_players (firstPlayTick ?s1)"
    by (intro live_players_cong) (simp_all add: firstTick_def Let_def)
  then show ?thesis by blast
qed

lemma kept_client_ready: "kept (heap s) (heap (state_of (client_ready request s)))"
proof (cases "determine_room request")
  case (Inl e)
  then show ?thesis by (simp add: client_ready_error kept_refl)
next
  case (Inr n)
  then have n1: "n \<noteq> - 1" using determine_room_range [OF Inr] by (simp add: MIN_ROOM_NUM_def)
  show ?thesis
  proof (cases "checkClientAlreadyConnected request s")
    case (Some res)
    then have "client_ready request s = res"
      using n1 by (simp add: client_ready_def determineDifficultyLevel_spec Inr)
    moreover have "kept (heap s) (heap (state_of res))"
      using Some
      by (auto simp add: checkClientAlreadyConnected_def intro!: kept_update kept_refl
          split: option.splits slot.splits)
    ultimately show ?thesis by simp
  next
    case None
    show ?thesis
    proof (cases "profile_tag (the (the (data request))) = Some TagOther")
      case True
      then show ?thesis by (simp add: client_ready_bad_tag [OF Inr None] kept_refl)
    next
      case False
      obtain tag g where t: "determineTag (the (the (data request))) s = Inr (tag, s\<lparr>num_guests := g\<rparr>)"
        using determineTag_state [OF False] by blast
      have "heap (state_of (client_ready request s)) =
          heap s @ [\<lparr>player_tag = tag, points = JNum 0, diff_lvl = n,
                      incomplete_round = round_in_progress s, ref_count = 1\<rparr>]"
        using n1
        by (simp add: client_ready_def determineDifficultyLevel_spec Inr None t Let_def
            split: option.splits)
      then show ?thesis by (simp add: kept_append)
    qed
  qed
qed

lemma kept_change_room: "kept (heap s) (heap (state_of (change_room request s)))"
proof (cases "determine_room request")
  case (Inl e)
  then show ?thesis by (simp add: change_room_error kept_refl)
next
  case (Inr n)
  then have n1: "n \<noteq> - 1" using determine_room_range [OF Inr] by (simp add: MIN_ROOM_NUM_def)
  show ?thesis
    using n1
    by (auto simp add: change_room_def determineDifficultyLevel_spec Inr Let_def session_ref_def
        intro!: kept_update kept_refl split: option.splits slot.splits if_splits)
qed

lemma kept_disconnect: "kept (heap s) (heap (state_of (disconnect request s)))"
  by (auto simp add: disconnect_def Let_def session_ref_def
      intro!: kept_update kept_refl split: option.splits slot.splits if_splits)

lemma kept_request_final_score: "kept (heap s) (heap (state_of (request_final_score request s)))"
  by (auto simp add: request_final_score_def Let_def session_ref_def
      intro!: kept_update kept_refl split: option.splits slot.splits if_splits)

lemma kept_player_scored_lobby:
  assumes "reachable s" and "\<not> round_in_progress s"
  shows "kept (heap s) (heap (state_of (player_scored request s)))"
proof -
  obtain ms where "player_scored request s = Returned (s\<lparr>out := out s @ ms\<rparr>)"
    using player_scored_lobby [OF reachable_numbers [OF assms(1)] assms(2)] by blast
  then show ?thesis by (simp add: kept_refl)
qed

lemma heap_tick_dispatch:
  "secsRemaining s \<noteq> 0 \<Longrightarrow> heap (tick_dispatch now s) = heap s"
  by (simp add: tick_dispatch_def Let_def heap_firstLobbyTick playTick_eq lobbyTick_eq
      adjustLobbySecs_eq)

lemma heap_timerTick:
  "secsRemaining s \<noteq> 0 \<Longrightarrow> heap (timerTick now1 now2 s) = heap s"
  by (simp add: timerTick_eq calibrateTimer_def calibrateTimer_with_eq heap_tick_dispatch)

lemma heap_oneShot:
  "\<not> (secsRemaining s = 0 \<or> secsRemaining s > SECS_IN_LOBBY) \<Longrightarrow>
   heap (oneShot interval s) = heap s"
  by (simp add: oneShot_def firstTick_def Let_def heap_firstLobbyTick)

lemma kept_handle:
  assumes "reachable s" and "\<not> enters_play i s" and "\<not> scores_in_play i s"
  shows "kept (heap s) (heap (state_of (handle i s)))"
proof (cases i)
  case OneShot
  then show ?thesis using assms(2) by (simp add: heap_oneShot kept_refl)
next
  case (TimerTick now1 now2)
  then show ?thesis using assms(2) by (simp add: heap_timerTick kept_refl)
next
  case (ClientReady request)
  then show ?thesis by (simp add: kept_client_ready)
next
  case (ChangeRoom request)
  then show ?thesis by (simp add: kept_change_room)
next
  case (Disconnect request)
  then show ?thesis by (simp add: kept_disconnect)
next
  case (PlayerScored request)
  then show ?thesis using assms(1,3) by (simp add: kept_player_scored_lobby)
next
  case (RequestFinalScore request)
  then show ?thesis by (simp add: kept_request_final_score)
qed

lemma enters_play_zero:
  assumes "enters_play i s" and "p \<in> set (live_players (state_of (handle i s)))"
  shows "points p = JNum 0"
proof (cases i)
  case OneShot
  then have e: "secsRemaining s = 0 \<or> secsRemaining s > SECS_IN_LOBBY" using assms(1) by simp
  obtain s' where "live_players (firstTick s) = live_players (firstPlayTick s')"
    using firstTick_enters_play [OF e] by blast
  moreover have "live_players (oneShot NORMAL_TIMER_INTERVAL s) = live_players (firstTick s)"
    by (rule live_players_cong) (simp_all add: oneShot_def Let_def send_def)
  ultimately show ?thesis using assms(2) OneShot firstPlayTick_zero [of p s'] by simp
next
  case (TimerTick now1 now2)
  then have "secsRemaining s = 0" using assms(1) by simp
  then show ?thesis
    using assms(2) TimerTick timerTick_enters_play [of s now1 now2]
      firstPlayTick_zero [of p "(lobbyTick s)\<lparr>secsRemaining := SECS_IN_COMPLETE_CYCLE\<rparr>"]
    by simp
qed (use assms(1) in simp_all)

lemma fields_emitRoundEventAndResults [simp]:
  "members (state_of (emitRoundEventAndResults c b r s)) = members s"
  "roomCount (state_of (emitRoundEventAndResults c b r s)) = roomCount s"
proof -
  obtain ms where "state_of (emitRoundEventAndResults c b r s) = s\<lparr>out := out s @ ms\<rparr>"
    using emitRoundEventAndResults_state by blast
  then show "members (state_of (emitRoundEventAndResults c b r s)) = members s"
    and "roomCount (state_of (emitRoundEventAndResults c b r s)) = roomCount s"
    by simp_all
qed



lemma player_scored_points:
  assumes n: "numbers (heap s)" and j: "j < length (heap s)"
  shows "points (heap (state_of (player_scored request s)) ! j) = points (heap s ! j) \<or>
         data request = Some (points (heap (state_of (player_scored request s)) ! j))"
proof (cases "round_in_progress s")
  case False
  obtain ms where "player_scored request s = Returned (s\<lparr>out := out s @ ms\<rparr>)"
    using player_scored_lobby [OF n False] by blast
  then show ?thesis by simp
next
  case True
  show ?thesis
  proof (cases "session_ref s (sock request)")
    case None
    then show ?thesis
      by (simp add: player_scored_def send_def split: option.splits)
  next
    case (Some r)
    then obtain v where v: "session_player s (sock request) = Some v"
      by (auto simp add: session_ref_def split: option.splits)
    show ?thesis
    proof (cases "data request")
      case None
      then show ?thesis by (simp add: player_scored_def send_def v Some)
    next
      case (Some pts)
      note d = this
      show ?thesis
      proof (cases "is_nullish pts")
        case True
        then show ?thesis by (simp add: player_scored_def send_def v \<open>session_ref s (sock request) = Some r\<close> d)
      next
        case False
        define h1 where "h1 = (heap s)[r := (heap s ! r)\<lparr>points := pts\<rparr>]"
        have 1: "points (h1 ! j) = points (heap s ! j) \<or> pts = points (h1 ! j)"
          using j by (cases "j = r") (simp_all add: h1_def)
        have 2: "points (h1[r' := (h1 ! r')\<lparr>points := pts\<rparr>] ! j) = points (heap s ! j) \<or>
                 pts = points (h1[r' := (h1 ! r')\<lparr>points := pts\<rparr>] ! j)" for r'
          using j 1 by (cases "j = r'") (simp_all add: h1_def)
        show ?thesis
          using 1 2 False True
          by (simp add: player_scored_def v \<open>session_ref s (sock request) = Some r\<close> d Let_def
              update_player_def h1_def split: option.splits slot.splits)
      qed
    qed
  qed
qed

section \<open>The clock and the round scheduler\<close>

text \<open>
  C1 (as amended).  At start, for every clock reading \<open>now\<close>, with \<open>next_cycle\<close> the first
  multiple of the cycle length strictly after \<open>now\<close>, \<open>secsRemaining\<close> becomes
  \<open>(next_cycle - now) div 1000\<close> and the one-shot is scheduled after
  \<open>(next_cycle - now) mod 1000 + initMSecOffset\<close> milliseconds: the first tick lands on
  the next whole second, 10 ms early, not on the next cycle boundary.  The one-shot runs
  the first tick and then installs the recurring timer at the normal interval.
\<close>

theorem start_schedules_first_tick:
  "start now s =
     s\<lparr>secsRemaining := (next_cycle now - now) div 1000,
       timerTimeoutObj := Some ((next_cycle now - now) mod 1000 + initMSecOffset),
       out := out s @ [SetTimeout ((next_cycle now - now) mod 1000 + initMSecOffset)],
       currentTimerInterval := NORMAL_TIMER_INTERVAL\<rparr>
   \<and> now < next_cycle now \<and> next_cycle now \<le> now + MSECS_IN_COMPLETE_CYCLE
   \<and> out (oneShot NORMAL_TIMER_INTERVAL s) = out (firstTick s) @ [SetInterval NORMAL_TIMER_INTERVAL]"
proof -
  have "out (oneShot NORMAL_TIMER_INTERVAL s) = out (firstTick s) @ [SetInterval NORMAL_TIMER_INTERVAL]"
    by (simp add: oneShot_def Let_def send_def)
  then show ?thesis
    using start_eq [of now s] next_cycle_range [of now] by simp
qed

text \<open>
  C1 as stated fails: started 1 s after a cycle boundary, the one-shot is set to \<open>-10\<close> ms,
  where the claim's \<open>next_cycle - now + INIT_OFFSET\<close> is 178990 ms.
\<close>

theorem start_delay_counterexample:
  "new_out init_server (start 1000 init_server) = [SetTimeout (- 10)] \<and>
   next_cycle_spec 1000 - 1000 + initMSecOffset = 178990"
  by (simp add: start_def delayStart_def send_def init_server_def msecUntilNextGame_def
      MSECS_IN_COMPLETE_CYCLE_def SECS_IN_COMPLETE_CYCLE_def js_rem_def js_tdiv_def
      initMSecOffset_def next_cycle_spec_def Let_def new_out_def)

text \<open>
  C7.  For a clock reading \<open>now\<close> at or after the epoch, fine calibration computes
  \<open>err = (now + 500) mod 1000 - 500\<close>, which lies in \<open>[-500, 499]\<close>; it selects the
  interval of the specification's table (FASTER and SLOWER only with the large-skew
  flag); it clears and reinstalls the recurring timer exactly when the selected interval
  differs from the current one; and every recurring tick runs it.
\<close>

theorem calibrateTimer_selects:
  assumes "0 \<le> now"
  shows "msecClkErr now = (now + 500) mod 1000 - 500 \<and>
         - 500 \<le> msecClkErr now \<and> msecClkErr now \<le> 499 \<and>
         newTimerInterval larger (msecClkErr now) = interval_table larger (msecClkErr now) \<and>
         calibrateTimer_with larger now s =
           (if interval_table larger (msecClkErr now) = currentTimerInterval s then s
            else s\<lparr>currentTimerInterval := interval_table larger (msecClkErr now),
                   timerIntervalObj := Some (interval_table larger (msecClkErr now)),
                   out := out s @ [ClearInterval, SetInterval (interval_table larger (msecClkErr now))]\<rparr>) \<and>
         timerTick now1 now s =
           (calibrateTimer_with USE_LARGER_CLOCK_SKEW now (tick_dispatch now1 s))
             \<lparr>secsRemaining := secsRemaining (tick_dispatch now1 s) - 1\<rparr>"
proof -
  have "0 \<le> now + 500" using assms by simp
  then have "js_rem (now + 500) 1000 = (now + 500) mod 1000" by (simp add: js_rem_nonneg)
  moreover have "0 \<le> (now + 500) mod 1000 \<and> (now + 500) mod 1000 < 1000" by simp
  ultimately have e: "msecClkErr now = (now + 500) mod 1000 - 500 \<and>
         - 500 \<le> msecClkErr now \<and> msecClkErr now \<le> 499"
    by (simp add: msecClkErr_def)
  have t: "newTimerInterval larger err = interval_table larger err" for err
    by (simp add: newTimerInterval_def interval_table_def Let_def)
  show ?thesis
    using e by (simp add: t calibrateTimer_with_eq timerTick_eq calibrateTimer_def)
qed

theorem calibrateTimer_selects_witness:
  "(0::int) \<le> 1700000000123 \<and> msecClkErr 1700000000123 = 123 \<and>
   new_out (start 1000 init_server) (calibrateTimer_with False 1700000000123 (start 1000 init_server))
     = [ClearInterval, SetInterval FAST_TIMER_INTERVAL]"
  using calibrateTimer_selects [of 1700000000123 False "start 1000 init_server"]
  by (simp add: interval_table_def new_out_def start_eq
      MSECS_EXTRA_MAX_CLK_ERR_def MSECS_MAX_CLK_ERR_def FAST_TIMER_INTERVAL_def NORMAL_TIMER_INTERVAL_def)

text \<open>
  C5 (as amended).  A recurring tick entered with \<open>secsRemaining = n\<close> sends a Play update
  to the occupied rooms exactly when \<open>n \<ge> SECS_IN_LOBBY\<close> or \<open>n = 0\<close> (the latter as part
  of entering Play), and sends \<open>round_ended\<close> exactly when \<open>n = SECS_IN_LOBBY\<close>.  When
  \<open>n \<ge> SECS_IN_LOBBY\<close> the dispatch is the Play tick, followed at once by the entry to
  Lobby when \<open>n = SECS_IN_LOBBY\<close>.
\<close>

theorem timerTick_dispatch:
  "(\<exists>ms. out (timerTick now1 now2 s) = out s @ ms \<and> dispatch_sends s ms) \<and>
   (secsRemaining s \<ge> SECS_IN_LOBBY \<longrightarrow>
      tick_dispatch now1 s =
        (if secsRemaining s = SECS_IN_LOBBY then firstLobbyTick (playTick s) else playTick s))"
proof -
  have "secsRemaining (playTick s) = secsRemaining s" by (simp add: playTick_eq)
  then have "secsRemaining s \<ge> SECS_IN_LOBBY \<longrightarrow>
      tick_dispatch now1 s =
        (if secsRemaining s = SECS_IN_LOBBY then firstLobbyTick (playTick s) else playTick s)"
    by (simp add: tick_dispatch_def Let_def)
  then show ?thesis using timerTick_out [of now1 now2 s] by blast
qed

theorem timerTick_dispatch_witness:
  "secsRemaining last_play \<ge> SECS_IN_LOBBY \<and>
   tick_dispatch 179000 last_play = firstLobbyTick (playTick last_play)"
proof -
  have "secsRemaining last_play = 30" by code_simp
  then show ?thesis
    using timerTick_dispatch [of 179000 179000 last_play]
    by (simp add: SECS_IN_LOBBY_def)
qed

text \<open>
  C5 as stated fails: a tick entered with \<open>secsRemaining = SECS_IN_LOBBY\<close>, which is not
  above \<open>SECS_IN_LOBBY\<close>, performs a Play tick before it enters Lobby.
\<close>

theorem play_tick_counterexample:
  "\<not> secsRemaining last_play > SECS_IN_LOBBY \<and>
   emitted last_play (timerTick 179000 179000 last_play) =
     [''play_timer_update'', ''round_ended'', ''room_round_results'', ''lobby_timer_update'']"
  by code_simp

text \<open>
  C6 (as amended).  The coarse adjustment sets \<open>secsRemaining\<close> to
  \<open>max (secs - SECS_MAX_SKIP_FWD) (min SECS_IN_LOBBY actual)\<close> when
  \<open>actual = (msecUntilNextGame + 500) div 1000\<close> differs from it; a recurring tick applies
  it exactly when entered with \<open>secsRemaining = SECS_IN_LOBBY - 1\<close>; one application
  drops at most \<open>SECS_MAX_SKIP_FWD\<close> seconds; and whatever the clock reads, \<open>k \<ge> 1\<close> ticks
  after the Lobby second \<open>SECS_IN_LOBBY - 1\<close> at least
  \<open>SECS_IN_LOBBY - 1 - SECS_MAX_SKIP_FWD - k\<close> seconds remain, so that a Lobby loses at
  most 9 of its 30 seconds.
\<close>

theorem coarse_adjustment_bounded:
  "adjustLobbySecs now s = s\<lparr>secsRemaining := coarse_adjusted now (secsRemaining s)\<rparr> \<and>
   secsRemaining (tick_dispatch now s) =
     (if secsRemaining s = SECS_IN_LOBBY - 1 then coarse_adjusted now (secsRemaining s)
      else if secsRemaining s = 0 then SECS_IN_COMPLETE_CYCLE
      else secsRemaining s) \<and>
   secsRemaining s - coarse_adjusted now (secsRemaining s) \<le> SECS_MAX_SKIP_FWD \<and>
   (secsRemaining s = SECS_IN_LOBBY - 1 \<and> clk \<noteq> [] \<longrightarrow>
      SECS_IN_LOBBY - 1 - SECS_MAX_SKIP_FWD - int (length clk) \<le> secsRemaining (run_ticks clk s))"
  using adjustLobbySecs_eq [of now s] tick_dispatch_secs [of now s]
    coarse_adjusted_lower [of "secsRemaining s" now] run_ticks_from_lobby [of s clk]
  by simp

theorem coarse_adjustment_bounded_witness:
  "secsRemaining in_lobby = SECS_IN_LOBBY - 1 \<and> [(175000, 175000)] \<noteq> [] \<and>
   secsRemaining (run_ticks [(175000, 175000)] in_lobby) = 19"
proof -
  have a: "secsRemaining in_lobby = SECS_IN_LOBBY - 1" by code_simp
  have b: "secsRemaining (run_ticks [(175000, 175000)] in_lobby) \<le> 19" by code_simp
  show ?thesis
    using coarse_adjustment_bounded [of 175000 in_lobby "[(175000, 175000)]"] a b
    by (simp add: SECS_IN_LOBBY_def SECS_MAX_SKIP_FWD_def)
qed

text \<open>
  C6 as stated fails in "once per cycle": with the wall clock 6 s behind, the tick at
  \<open>SECS_IN_LOBBY - 1\<close> adjusts and leaves \<open>secsRemaining\<close> at \<open>SECS_IN_LOBBY - 1\<close>, and the
  next tick of the same Lobby adjusts again.
\<close>

theorem coarse_adjustment_twice_counterexample:
  "secsRemaining in_lobby = SECS_IN_LOBBY - 1 \<and>
   secsRemaining (adjustLobbySecs 144990 in_lobby) \<noteq> secsRemaining in_lobby \<and>
   secsRemaining (timerTick 144990 144990 in_lobby) = SECS_IN_LOBBY - 1 \<and>
   secsRemaining (adjustLobbySecs 145990 (timerTick 144990 144990 in_lobby))
     \<noteq> secsRemaining (timerTick 144990 144990 in_lobby)"
  by code_simp

section \<open>Validation of the difficulty level\<close>

text \<open>
  C9.  \<open>determineDifficultyLevel\<close> reports the first failing check in the order missing
  request, missing profile, missing room, not an integer, out of range; and a request
  whose level reads as \<open>MIN_ROOM_NUM - 1\<close> or \<open>MIN_ROOM_NUM + NUM_ROOMS\<close> makes
  \<open>client_ready\<close> (and \<open>change_room\<close>) emit \<open>error_client_ready\<close> with the text
  "Difficulty level is out of range" to the requesting connection only and return with
  the rest of the server state as it was: nobody is attached.
\<close>

theorem out_of_range_rejected:
  "determineDifficultyLevel request s =
     (case determine_room request of
        Inl e \<Rightarrow> (- 1, s\<lparr>out := out s @ [Emit (sock request) ''error_client_ready''
                                          (PErrInput (error_str e) (user_input request e))]\<rparr>)
      | Inr n \<Rightarrow> (n, s)) \<and>
   (data request = Some (Some prof) \<and> difficulty_level prof = Some v \<and> parseInt v = Some n \<and>
    (n = MIN_ROOM_NUM - 1 \<or> n = MIN_ROOM_NUM + NUM_ROOMS) \<longrightarrow>
      client_ready request s =
        Returned (s\<lparr>out := out s @ [Emit (sock request) ''error_client_ready''
                                      (PErrInput ''Difficulty level is out of range'' v)]\<rparr>) \<and>
      change_room request s =
        Returned (s\<lparr>out := out s @ [Emit (sock request) ''error_client_ready''
                                      (PErrInput ''Difficulty level is out of range'' v)]\<rparr>))"
proof -
  have "client_ready request s =
        Returned (s\<lparr>out := out s @ [Emit (sock request) ''error_client_ready''
                                      (PErrInput ''Difficulty level is out of range'' v)]\<rparr>) \<and>
      change_room request s =
        Returned (s\<lparr>out := out s @ [Emit (sock request) ''error_client_ready''
                                      (PErrInput ''Difficulty level is out of range'' v)]\<rparr>)"
    if d: "data request = Some (Some prof)" and l: "difficulty_level prof = Some v"
      and p: "parseInt v = Some n" and n: "n = MIN_ROOM_NUM - 1 \<or> n = MIN_ROOM_NUM + NUM_ROOMS"
  proof -
    from n have "n < MIN_ROOM_NUM \<or> n \<ge> MIN_ROOM_NUM + NUM_ROOMS" by auto
    then have e: "determine_room request = Inl out_of_range"
      using d l p by (auto simp add: determine_room_def)
    have u: "user_input request out_of_range = v"
      using d l by (simp add: user_input_def)
    show ?thesis
      using client_ready_error [OF e, of s] change_room_error [OF e, of s] by (simp add: u)
  qed
  then show ?thesis using determineDifficultyLevel_spec [of request s] by blast
qed

theorem out_of_range_rejected_witness:
  "parseInt (DStr ''4'') = Some (MIN_ROOM_NUM + NUM_ROOMS) \<and>
   client_ready (room_request 0 ''s1'' (DStr ''4'') None) in_play =
     Returned (in_play\<lparr>out := out in_play @ [Emit 0 ''error_client_ready''
                                      (PErrInput ''Difficulty level is out of range'' (DStr ''4''))]\<rparr>) \<and>
   parseInt (DOther ''-1'') = Some (MIN_ROOM_NUM - 1) \<and>
   change_room (room_request 0 ''s1'' (DOther ''-1'') None) in_play =
     Returned (in_play\<lparr>out := out in_play @ [Emit 0 ''error_client_ready''
                                      (PErrInput ''Difficulty level is out of range'' (DOther ''-1''))]\<rparr>)"
proof -
  have a: "parseInt_string ''4'' = Some 4" by code_simp
  have a': "parseInt_string ''-1'' = Some (- 1)" by code_simp
  note b = out_of_range_rejected [where request = "room_request 0 ''s1'' (DStr ''4'') None"
      and s = in_play and prof = "\<lparr>difficulty_level = Some (DStr ''4''), profile_tag = None\<rparr>"
      and v = "DStr ''4''" and n = 4, THEN conjunct2]
  note c = out_of_range_rejected [where request = "room_request 0 ''s1'' (DOther ''-1'') None"
      and s = in_play and prof = "\<lparr>difficulty_level = Some (DOther ''-1''), profile_tag = None\<rparr>"
      and v = "DOther ''-1''" and n = "- 1", THEN conjunct2]
  show ?thesis
    using b c by (simp add: a a' room_request_def MIN_ROOM_NUM_def NUM_ROOMS_def)
qed



section \<open>Rooms, attach and detach, scores\<close>

text \<open>
  C2.  A \<open>change_room\<close> to the room the requesting player is in ought to do nothing.
  The route compares the new level with the level of the global variable \<open>player\<close>,
  which it reads before setting it to the session's player, so it holds the player of
  whoever connected last.  After Alice joined room 0 and Bob room 1, Alice's request
  for room 0 is not recognised as the same room: the route returns after it has
  announced her to room 0 again and sent her the room list and the round event.
\<close>

theorem change_room_same_room_sends:
  "determine_room alice_same_room = Inr 0 \<and>
   session_player two_rooms (sock alice_same_room) = Some (SRef 0) \<and>
   map_of (all_players_list two_rooms) (sessionID alice_same_room) = Some (SRef 0) \<and>
   diff_lvl (heap two_rooms ! 0) = 0 \<and>
   returned (change_room alice_same_room two_rooms) \<and>
   new_out two_rooms (state_of (change_room alice_same_room two_rooms)) =
     [RoomBroadcastFrom 0 0 ''gamer_entered_room'' (PEntry (''Alice'', JNum 0)),
      Emit 0 ''gamers_already_in_room'' (PLeaders [(''Alice'', JNum 0)]),
      Emit 0 ''round_started'' (PSecs 150)]"
  by code_simp




text \<open>
  C4.  In every reachable state with \<open>round_in_progress = false\<close>, \<open>player_scored\<close>
  returns having at most emitted a message: the state is otherwise the same, so every
  points field of every player is what it was.
\<close>

theorem lobby_score_ignored:
  assumes "reachable s" and "\<not> round_in_progress s"
  shows "(\<exists>ms. player_scored request s = Returned (s\<lparr>out := out s @ ms\<rparr>)) \<and>
         map points (heap (state_of (player_scored request s))) = map points (heap s) \<and>
         map points (live_players (state_of (player_scored request s))) = map points (live_players s)"
proof -
  obtain ms where p: "player_scored request s = Returned (s\<lparr>out := out s @ ms\<rparr>)"
    using player_scored_lobby [OF reachable_numbers [OF assms(1)] assms(2)] by blast
  have "live_players (s\<lparr>out := out s @ ms\<rparr>) = live_players s"
    by (simp add: live_players_def)
  then have "map points (heap (state_of (player_scored request s))) = map points (heap s) \<and>
         map points (live_players (state_of (player_scored request s))) = map points (live_players s)"
    by (simp add: p)
  then show ?thesis using p by blast
qed

theorem lobby_score_ignored_witness:
  "reachable lobby_alice \<and> \<not> round_in_progress lobby_alice \<and>
   data nine_points = Some (JNum 9) \<and>
   map points (live_players (state_of (player_scored nine_points lobby_alice))) = [JNum 0]"
proof -
  have r: "reachable lobby_alice"
    using reachable.step [OF reachable_in_lobby, of "ClientReady alice_ready"]
    by (simp add: lobby_alice_def)
  have l: "\<not> round_in_progress lobby_alice" by code_simp
  have p: "map points (live_players lobby_alice) = [JNum 0]" by code_simp
  show ?thesis
    using lobby_score_ignored [OF r l, of nine_points] r l p by (simp add: nine_points_def)
qed

text \<open>
  C8 (as amended).  In every reachable state the points of every player in the registry
  are neither null nor undefined.  A \<open>client_ready\<close> that creates a player registers it
  with 0 points; after a tick that starts a round every player in the registry has 0
  points; a \<open>player_scored\<close> received in Play from a registered session, with a value
  that is neither null nor undefined, stores that value as it came, whatever its sign;
  every other input but a \<open>player_scored\<close> in Play leaves the points of every existing
  player object as they were, and no \<open>player_scored\<close> changes the points of a player
  object to anything but the value it reports.
\<close>

theorem points_never_null:
  assumes "reachable s"
  shows "(p \<in> set (live_players s) \<longrightarrow> \<not> is_nullish (points p)) \<and>
         (determine_room q = Inr n \<and> checkClientAlreadyConnected q s = None \<and>
          session_player s (sock q) \<noteq> None \<and>
          profile_tag (the (the (data q))) \<noteq> Some TagOther \<longrightarrow>
            map_of (all_players_list (state_of (client_ready q s))) (sessionID q)
              = Some (SRef (length (heap s))) \<and>
            points (heap (state_of (client_ready q s)) ! length (heap s)) = JNum 0) \<and>
         (enters_play i s \<and> p' \<in> set (live_players (state_of (handle i s))) \<longrightarrow>
            points p' = JNum 0) \<and>
         (round_in_progress s \<and> session_ref s (sock request) = Some r \<and>
          map_of (all_players_list s) (sessionID request) = Some (SRef r) \<and>
          data request = Some pts \<and> \<not> is_nullish pts \<longrightarrow>
            returned (player_scored request s) \<and>
            points (heap (state_of (player_scored request s)) ! r) = pts) \<and>
         (\<not> enters_play i' s \<and> \<not> scores_in_play i' s \<longrightarrow>
            kept (heap s) (heap (state_of (handle i' s)))) \<and>
         (j < length (heap s) \<longrightarrow>
            points (heap (state_of (player_scored request' s)) ! j) = points (heap s ! j) \<or>
            data request' = Some (points (heap (state_of (player_scored request' s)) ! j)))"
proof -
  have n: "numbers (heap s)" using assms by (rule reachable_numbers)
  have 1: "\<not> is_nullish (points p)" if "p \<in> set (live_players s)"
  proof -
    from that have "is_number (points p)"
      using n live_players_heap [of s] by (auto simp add: numbers_def)
    then show ?thesis by (cases "points p") (simp_all add: is_number_def is_nullish_def)
  qed
  have 2: "returned (player_scored request s) \<and>
            points (heap (state_of (player_scored request s)) ! r) = pts"
    if a: "round_in_progress s" and b: "session_ref s (sock request) = Some r"
      and c: "map_of (all_players_list s) (sessionID request) = Some (SRef r)"
      and d: "data request = Some pts" and e: "\<not> is_nullish pts"
  proof -
    from b have l: "r < length (heap s)"
      by (auto simp add: session_ref_def split: option.splits slot.splits if_splits)
    from b obtain v where v: "session_player s (sock request) = Some v"
      by (auto simp add: session_ref_def split: option.splits)
    show ?thesis
      using a b c d e l v by (simp add: player_scored_def Let_def update_player_def)
  qed
  have 3: "map_of (all_players_list (state_of (client_ready q s))) (sessionID q)
              = Some (SRef (length (heap s))) \<and>
            points (heap (state_of (client_ready q s)) ! length (heap s)) = JNum 0"
    if v: "determine_room q = Inr n" and f: "checkClientAlreadyConnected q s = None"
      and se: "session_player s (sock q) \<noteq> None"
      and ok: "profile_tag (the (the (data q))) \<noteq> Some TagOther"
  proof -
    obtain tag g ms where "state_of (client_ready q s) =
      s\<lparr>num_guests := g,
        heap := heap s @ [\<lparr>player_tag = tag, points = JNum 0, diff_lvl = n,
                              incomplete_round = round_in_progress s, ref_count = 1\<rparr>],
        player_var := Some (SRef (length (heap s))),
        all_players_list := AList.update (sessionID q) (SRef (length (heap s))) (all_players_list s),
        session_player := (session_player s)(sock q := Some (SRef (length (heap s)))),
        roomCount := (roomCount s)(n := roomCount s n + 1),
        members := insert (sock q, n) (members s),
        out := out s @ ms\<rparr>"
      using client_ready_fresh [OF v f se ok] by blast
    then show ?thesis by (simp add: update_conv')
  qed
  show ?thesis
    using 1 2 3 enters_play_zero [of i s p'] kept_handle [OF assms, of i']
      player_scored_points [OF n, of j request']
    by blast
qed

theorem points_never_null_witness:
  "reachable neg_points \<and>
   hd (live_players neg_points) \<in> set (live_players neg_points) \<and>
   \<not> is_nullish (points (hd (live_players neg_points))) \<and>
   determine_room bob_ready = Inr 1 \<and> checkClientAlreadyConnected bob_ready neg_points = None \<and>
   session_player neg_points (sock bob_ready) \<noteq> None \<and>
   profile_tag (the (the (data bob_ready))) \<noteq> Some TagOther \<and>
   points (heap (state_of (client_ready bob_ready neg_points)) ! length (heap neg_points)) = JNum 0 \<and>
   enters_play OneShot neg_points \<and>
   map points (live_players neg_points) = [JNum (- 5)] \<and>
   map points (live_players (state_of (handle OneShot neg_points))) = [JNum 0] \<and>
   round_in_progress neg_points \<and> session_ref neg_points (sock nine_points) = Some 0 \<and>
   map_of (all_players_list neg_points) (sessionID nine_points) = Some (SRef 0) \<and>
   data nine_points = Some (JNum 9) \<and> \<not> is_nullish (JNum 9) \<and>
   points (heap (state_of (player_scored nine_points neg_points)) ! 0) = JNum 9 \<and>
   \<not> enters_play (ChangeRoom alice_same_room) neg_points \<and>
   \<not> scores_in_play (ChangeRoom alice_same_room) neg_points \<and>
   kept (heap neg_points) (heap (state_of (handle (ChangeRoom alice_same_room) neg_points))) \<and>
   0 < length (heap neg_points) \<and>
   points (heap (state_of (player_scored minus_five neg_points)) ! 0) = points (heap neg_points ! 0) \<and>
   points (heap (state_of (player_scored nine_points neg_points)) ! 0) \<noteq> points (heap neg_points ! 0) \<and>
   data nine_points = Some (points (heap (state_of (player_scored nine_points neg_points)) ! 0))"
proof -
  let ?after = "state_of (handle OneShot neg_points)"
  have "live_players neg_points \<noteq> []" by code_simp
  then have m: "hd (live_players neg_points) \<in> set (live_players neg_points)" by simp
  have b1: "determine_room bob_ready = Inr 1" by code_simp
  have b2: "checkClientAlreadyConnected bob_ready neg_points = None" by code_simp
  have b3: "session_player neg_points (sock bob_ready) \<noteq> None" by code_simp
  have b4: "profile_tag (the (the (data bob_ready))) \<noteq> Some TagOther" by code_simp
  have e1: "enters_play OneShot neg_points" by code_simp
  have e2: "map points (live_players neg_points) = [JNum (- 5)]" by code_simp
  have e3: "length (live_players ?after) = 1" by code_simp
  have p1: "round_in_progress neg_points" by code_simp
  have p2: "session_ref neg_points (sock nine_points) = Some 0" by code_simp
  have p3: "map_of (all_players_list neg_points) (sessionID nine_points) = Some (SRef 0)"
    by code_simp
  have p4: "data nine_points = Some (JNum 9)" by code_simp
  have p5: "\<not> is_nullish (JNum 9)" by code_simp
  have f1: "\<not> enters_play (ChangeRoom alice_same_room) neg_points" by simp
  have f2: "\<not> scores_in_play (ChangeRoom alice_same_room) neg_points" by simp
  obtain x where x: "live_players ?after = [x]"
    using e3 by (cases "live_players ?after") simp_all
  note w = points_never_null [OF reachable_neg_points, where p = "hd (live_players neg_points)"
      and q = bob_ready and n = 1 and i = OneShot and p' = x and request = nine_points and r = 0
      and pts = "JNum 9" and i' = "ChangeRoom alice_same_room" and j = 0
      and request' = nine_points]
  from w m have 1: "\<not> is_nullish (points (hd (live_players neg_points)))" by blast
  from w b1 b2 b3 b4
  have 2: "points (heap (state_of (client_ready bob_ready neg_points)) ! length (heap neg_points)) = JNum 0"
    by blast
  from w e1 x have "points x = JNum 0" by simp
  then have 3: "map points (live_players ?after) = [JNum 0]" using x by simp
  from w p1 p2 p3 p4 p5
  have 4: "points (heap (state_of (player_scored nine_points neg_points)) ! 0) = JNum 9"
    by blast
  from w f1 f2
  have 5: "kept (heap neg_points) (heap (state_of (handle (ChangeRoom alice_same_room) neg_points)))"
    by blast
  have g1: "0 < length (heap neg_points)" by code_simp
  have g2: "points (heap (state_of (player_scored minus_five neg_points)) ! 0) =
            points (heap neg_points ! 0)"
    by code_simp
  have g3: "points (heap (state_of (player_scored nine_points neg_points)) ! 0) \<noteq>
            points (heap neg_points ! 0)"
    by code_simp
  from w g1 g3
  have 6: "data nine_points = Some (points (heap (state_of (player_scored nine_points neg_points)) ! 0))"
    by blast
  show ?thesis
    using reachable_neg_points m 1 b1 b2 b3 b4 2 e1 e2 3 p1 p2 p3 p4 p5 4 f1 f2 5 g1 g2 g3 6
    by blast
qed

text \<open>
  C8 as stated fails: \<open>player_scored\<close> stores the reported value unchecked, so after a
  report of -5 in Play the registry holds a player with -5 points.
\<close>

theorem negative_points_counterexample:
  "reachable neg_points \<and> map points (live_players neg_points) = [JNum (- 5)] \<and>
   \<not> nonneg_points (JNum (- 5))"
proof -
  have "map points (live_players neg_points) = [JNum (- 5)]" by code_simp
  moreover have "\<not> nonneg_points (JNum (- 5))" by (simp add: nonneg_points_def)
  ultimately show ?thesis using reachable_neg_points by simp
qed

end
